theory Spec2Isabelle
  imports Main "HOL-Library.AList" "HOL-Library.Multiset"
begin

section \<open>Data model\<close>

text \<open>
  Go maps are association lists: \<open>map_of\<close> is the lookup, \<open>AList.update\<close> the
  assignment \<open>m[k] = v\<close>, \<open>AList.delete\<close> the builtin \<open>delete(m, k)\<close>, and the
  order of the list is the order in which one \<open>range\<close> loop visits the entries (Go leaves
  that order unspecified, so every order is a possible run).  Go slices are lists.
\<close>

subsection \<open>Declared state: what \<open>GoliacLocal\<close> returns\<close>

text \<open>The \<open>Spec\<close> sub-structure of the entities is flattened into \<open>Spec_\<close> fields.\<close>

record User =
  Spec_GithubID :: string

record Team =
  Spec_Members :: "string list"
  Spec_Owners :: "string list"

record Repository =
  Spec_IsPublic :: bool
  Archived :: bool
  Spec_Readers :: "string list"
  Spec_Writers :: "string list"
  Spec_ExternalUserReaders :: "string list"
  Spec_ExternalUserWriters :: "string list"
  Owner :: "string option"

text \<open>
  \<open>entity.RuleSetParameters\<close> is declared outside the two source files; it is the type
  parameter \<open>'p\<close>.  \<open>Spec_BypassApps\<close> lists (AppName, Mode), \<open>Spec_Rules\<close> lists
  (Ruletype, Parameters).
\<close>

record 'p RuleSet =
  rs_Name :: string
  Spec_Enforcement :: string
  Spec_BypassApps :: "(string \<times> string) list"
  Spec_On_Include :: "string list"
  Spec_On_Exclude :: "string list"
  Spec_Rules :: "(string \<times> 'p) list"

record 'p GoliacLocal =
  Users :: "(string \<times> User) list"
  ExternalUsers :: "(string \<times> User) list"
  Teams :: "(string \<times> Team) list"
  Repositories :: "(string \<times> Repository) list"
  RuleSets :: "(string \<times> 'p RuleSet) list"

subsection \<open>Live state\<close>

record GithubTeam =
  Name :: string
  Slug :: string
  Members :: "string list"

record GithubRepository =
  IsPrivate :: bool
  repo_IsArchived :: bool
  ExternalUsers_of :: "(string \<times> string) list"

record GithubTeamRepo =
  Permission :: string

record 'p GithubRuleSet =
  grs_Name :: string
  Id :: int
  Enforcement :: string
  BypassApps :: "(string \<times> string) list"
  OnInclude :: "string list"
  OnExclude :: "string list"
  Rules :: "(string \<times> 'p) list"
  grs_Repositories :: "string list"

text \<open>The read-only snapshot \<open>GoliacRemote\<close>, with the views the engine reads.\<close>

record 'p GoliacRemote =
  remote_Users :: "string list"
  remote_Teams :: "(string \<times> GithubTeam) list"
  remote_Repositories :: "(string \<times> GithubRepository) list"
  remote_TeamRepositories :: "(string \<times> (string \<times> GithubTeamRepo) list) list"
  remote_RuleSets :: "(string \<times> 'p GithubRuleSet) list"
  IsEnterprise :: bool

record 'p MutableGoliacRemoteImpl =
  users :: "string list"
  teams :: "(string \<times> GithubTeam) list"
  repositories :: "(string \<times> GithubRepository) list"
  teamRepositories :: "(string \<times> (string \<times> GithubTeamRepo) list) list"
  rulesets :: "(string \<times> 'p GithubRuleSet) list"

subsection \<open>Configuration, errors, operations\<close>

record DestructiveOperations =
  AllowDestructiveUsers :: bool
  AllowDestructiveTeams :: bool
  AllowDestructiveRepositories :: bool
  AllowDestructiveRulesets :: bool

record RulesetConfig =
  Pattern :: string
  Ruleset :: string

record RepositoryConfig =
  EveryoneTeamEnabled :: bool
  Rulesets :: "RulesetConfig list"
  DestructiveOps :: DestructiveOperations

text \<open>
  The two \<open>fmt.Errorf\<close> values of the rulesets pass: the pattern with the compiler's
  message, and the name of the ruleset that is not declared.
\<close>

datatype error =
  NotAbleToParseRegexp string string
| NotAbleToFindRuleset string

text \<open>
  One constructor for each method of the mirror and of the Executor, with the method's
  arguments (the Executor's come after its \<open>dryrun\<close> flag).
\<close>

datatype 'p op =
  OpAddUserToOrg string
| OpRemoveUserFromOrg string
| OpCreateTeam string string "string list"
| OpUpdateTeamAddMember string string string
| OpUpdateTeamRemoveMember string string
| OpDeleteTeam string
| OpCreateRepository string string "string list" "string list" bool
| OpUpdateRepositoryAddTeamAccess string string string
| OpUpdateRepositoryUpdateTeamAccess string string string
| OpUpdateRepositoryRemoveTeamAccess string string
| OpDeleteRepository string
| OpUpdateRepositoryUpdatePrivate string bool
| OpUpdateRepositoryUpdateArchived string bool
| OpAddRuleset "'p GithubRuleSet"
| OpUpdateRuleset "'p GithubRuleSet"
| OpDeleteRuleset int
| OpUpdateRepositorySetExternalUser string string string
| OpUpdateRepositoryRemoveExternalUser string string
| OpBegin
| OpRollback error
| OpCommit

text \<open>
  \<open>executor\<close> tells whether the \<open>ReconciliatorExecutor\<close> pointer is non-nil; its calls
  are recorded in \<open>executor_calls\<close>, each with the \<open>dryrun\<close> flag it received.  The
  calls made on the mirror are recorded in \<open>mirror_calls\<close>.  The log lines and the
  \<open>author\<close> read from the context only feed the logger and are left out.
\<close>

record GoliacReconciliatorImpl =
  executor :: bool
  repoconfig :: RepositoryConfig

record 'p rstate =
  remote :: "'p MutableGoliacRemoteImpl"
  mirror_calls :: "'p op list"
  executor_calls :: "(bool \<times> 'p op) list"

text \<open>
  The library functions the engine calls and does not define: \<open>slug.Make\<close>,
  \<open>regexp.Compile\<close> (\<open>Some msg\<close> when the pattern does not compile; a compiled
  expression is represented by its pattern), \<open>Regexp.Match\<close> (pattern, then subject),
  and for the parameters of a rule \<open>entity.CompareRulesetParameters\<close> and the zero value
  that reading a missing key of a Go map returns.
\<close>

record 'p externals =
  slug_Make :: "string \<Rightarrow> string"
  regexp_Compile :: "string \<Rightarrow> string option"
  regexp_Match :: "string \<Rightarrow> string \<Rightarrow> bool"
  CompareRulesetParameters :: "string \<Rightarrow> 'p \<Rightarrow> 'p \<Rightarrow> bool"
  zero_RuleSetParameters :: "'p"

section \<open>The mutable mirror\<close>

text \<open>
  Modelled from the spec: the type \<open>MutableGoliacRemoteImpl\<close>, its constructor and its
  mutators are not in the two source files.  Section 4.2 says the mirror wraps the snapshot
  and that each mutator updates the overlay so that reads reflect the post-mutation world;
  section 9 says the mutations are set insert and delete on users and map upsert on teams
  and repositories.  The mirror has no mutator for rulesets.
\<close>

definition NewMutableGoliacRemoteImpl :: "'p GoliacRemote \<Rightarrow> 'p MutableGoliacRemoteImpl" where
  "NewMutableGoliacRemoteImpl g =
     \<lparr>users = remote_Users g, teams = remote_Teams g, repositories = remote_Repositories g,
      teamRepositories = remote_TeamRepositories g, rulesets = remote_RuleSets g\<rparr>"

definition live_permission :: "string \<Rightarrow> string" where
  "live_permission p = (if p = ''push'' then ''WRITE'' else ''READ'')"

definition grant :: "string \<Rightarrow> string \<Rightarrow> string
    \<Rightarrow> (string \<times> (string \<times> GithubTeamRepo) list) list
    \<Rightarrow> (string \<times> (string \<times> GithubTeamRepo) list) list" where
  "grant reponame permission teamslug trs =
     AList.update teamslug
       (AList.update reponame \<lparr>Permission = live_permission permission\<rparr>
          (case map_of trs teamslug of None \<Rightarrow> [] | Some rs \<Rightarrow> rs)) trs"

fun mirror_apply :: "'p op \<Rightarrow> 'p MutableGoliacRemoteImpl \<Rightarrow> 'p MutableGoliacRemoteImpl" where
  "mirror_apply (OpAddUserToOrg ghuserid) m =
     m\<lparr>users := (if ghuserid \<in> set (users m) then users m else users m @ [ghuserid])\<rparr>"
| "mirror_apply (OpRemoveUserFromOrg ghuserid) m =
     m\<lparr>users := removeAll ghuserid (users m)\<rparr>"
| "mirror_apply (OpCreateTeam teamname description members) m =
     m\<lparr>teams := AList.update teamname
        \<lparr>Name = teamname, Slug = teamname, Members = members\<rparr> (teams m)\<rparr>"
| "mirror_apply (OpUpdateTeamAddMember teamslug username role) m =
     m\<lparr>teams := AList.map_entry teamslug
        (\<lambda>t. t\<lparr>Members := Members t @ [username]\<rparr>) (teams m)\<rparr>"
| "mirror_apply (OpUpdateTeamRemoveMember teamslug username) m =
     m\<lparr>teams := AList.map_entry teamslug
        (\<lambda>t. t\<lparr>Members := removeAll username (Members t)\<rparr>) (teams m)\<rparr>"
| "mirror_apply (OpDeleteTeam teamslug) m =
     m\<lparr>teams := AList.delete teamslug (teams m),
       teamRepositories := AList.delete teamslug (teamRepositories m)\<rparr>"
| "mirror_apply (OpCreateRepository reponame description writers readers public) m =
     m\<lparr>repositories := AList.update reponame
         \<lparr>IsPrivate = \<not> public, repo_IsArchived = False, ExternalUsers_of = []\<rparr>
         (repositories m),
       teamRepositories :=
         fold (grant reponame ''pull'') readers
           (fold (grant reponame ''push'') writers (teamRepositories m))\<rparr>"
| "mirror_apply (OpUpdateRepositoryAddTeamAccess reponame teamslug permission) m =
     m\<lparr>teamRepositories := grant reponame permission teamslug (teamRepositories m)\<rparr>"
| "mirror_apply (OpUpdateRepositoryUpdateTeamAccess reponame teamslug permission) m =
     m\<lparr>teamRepositories := grant reponame permission teamslug (teamRepositories m)\<rparr>"
| "mirror_apply (OpUpdateRepositoryRemoveTeamAccess reponame teamslug) m =
     m\<lparr>teamRepositories :=
        AList.map_entry teamslug (AList.delete reponame) (teamRepositories m)\<rparr>"
| "mirror_apply (OpDeleteRepository reponame) m =
     m\<lparr>repositories := AList.delete reponame (repositories m),
       teamRepositories :=
         map (\<lambda>(t, rs). (t, AList.delete reponame rs)) (teamRepositories m)\<rparr>"
| "mirror_apply (OpUpdateRepositoryUpdatePrivate reponame private) m =
     m\<lparr>repositories := AList.map_entry reponame
        (\<lambda>g. g\<lparr>IsPrivate := private\<rparr>) (repositories m)\<rparr>"
| "mirror_apply (OpUpdateRepositoryUpdateArchived reponame archived) m =
     m\<lparr>repositories := AList.map_entry reponame
        (\<lambda>g. g\<lparr>repo_IsArchived := archived\<rparr>) (repositories m)\<rparr>"
| "mirror_apply (OpUpdateRepositorySetExternalUser reponame ghid permission) m =
     m\<lparr>repositories := AList.map_entry reponame
        (\<lambda>g. g\<lparr>ExternalUsers_of :=
           AList.update ghid (live_permission permission) (ExternalUsers_of g)\<rparr>)
        (repositories m)\<rparr>"
| "mirror_apply (OpUpdateRepositoryRemoveExternalUser reponame ghid) m =
     m\<lparr>repositories := AList.map_entry reponame
        (\<lambda>g. g\<lparr>ExternalUsers_of := AList.delete ghid (ExternalUsers_of g)\<rparr>)
        (repositories m)\<rparr>"
| "mirror_apply (OpAddRuleset grs) m = m"
| "mirror_apply (OpUpdateRuleset grs) m = m"
| "mirror_apply (OpDeleteRuleset rulesetid) m = m"
| "mirror_apply OpBegin m = m"
| "mirror_apply (OpRollback err) m = m"
| "mirror_apply OpCommit m = m"

section \<open>The mediator: the mutation methods of \<open>GoliacReconciliatorImpl\<close>\<close>

text \<open>\<open>on_mirror c\<close> is the call \<open>remote.c(...)\<close>; \<open>forward\<close> is the block
  \<open>if r.executor != nil { r.executor.c(dryrun, ...) }\<close>.\<close>

definition on_mirror :: "'p op \<Rightarrow> 'p rstate \<Rightarrow> 'p rstate" where
  "on_mirror c st =
     st\<lparr>remote := mirror_apply c (remote st), mirror_calls := mirror_calls st @ [c]\<rparr>"

definition forward :: "GoliacReconciliatorImpl \<Rightarrow> bool \<Rightarrow> 'p op \<Rightarrow> 'p rstate \<Rightarrow> 'p rstate" where
  "forward r dryrun c st =
     (if executor r then st\<lparr>executor_calls := executor_calls st @ [(dryrun, c)]\<rparr> else st)"

definition AddUserToOrg ::
  "GoliacReconciliatorImpl \<Rightarrow> bool \<Rightarrow> string \<Rightarrow> 'p rstate \<Rightarrow> 'p rstate" where
  "AddUserToOrg r dryrun ghuserid st =
     forward r dryrun (OpAddUserToOrg ghuserid) (on_mirror (OpAddUserToOrg ghuserid) st)"

definition RemoveUserFromOrg ::
  "GoliacReconciliatorImpl \<Rightarrow> bool \<Rightarrow> string \<Rightarrow> 'p rstate \<Rightarrow> 'p rstate" where
  "RemoveUserFromOrg r dryrun ghuserid st =
     (let st1 = on_mirror (OpRemoveUserFromOrg ghuserid) st in
      if AllowDestructiveUsers (DestructiveOps (repoconfig r))
      then forward r dryrun (OpRemoveUserFromOrg ghuserid) st1
      else st1)"

definition CreateTeam ::
  "GoliacReconciliatorImpl \<Rightarrow> bool \<Rightarrow> string \<Rightarrow> string \<Rightarrow> string list \<Rightarrow> 'p rstate \<Rightarrow> 'p rstate" where
  "CreateTeam r dryrun teamname description members st =
     forward r dryrun (OpCreateTeam teamname description members)
       (on_mirror (OpCreateTeam teamname description members) st)"

text \<open>The \<open>role\<close> argument is only logged: both calls are made with \<open>"member"\<close>.\<close>

definition UpdateTeamAddMember ::
  "GoliacReconciliatorImpl \<Rightarrow> bool \<Rightarrow> string \<Rightarrow> string \<Rightarrow> string \<Rightarrow> 'p rstate \<Rightarrow> 'p rstate" where
  "UpdateTeamAddMember r dryrun teamslug username role st =
     forward r dryrun (OpUpdateTeamAddMember teamslug username ''member'')
       (on_mirror (OpUpdateTeamAddMember teamslug username ''member'') st)"

definition UpdateTeamRemoveMember ::
  "GoliacReconciliatorImpl \<Rightarrow> bool \<Rightarrow> string \<Rightarrow> string \<Rightarrow> 'p rstate \<Rightarrow> 'p rstate" where
  "UpdateTeamRemoveMember r dryrun teamslug username st =
     forward r dryrun (OpUpdateTeamRemoveMember teamslug username)
       (on_mirror (OpUpdateTeamRemoveMember teamslug username) st)"

definition DeleteTeam ::
  "GoliacReconciliatorImpl \<Rightarrow> bool \<Rightarrow> string \<Rightarrow> 'p rstate \<Rightarrow> 'p rstate" where
  "DeleteTeam r dryrun teamslug st =
     (if AllowDestructiveTeams (DestructiveOps (repoconfig r))
      then forward r dryrun (OpDeleteTeam teamslug) (on_mirror (OpDeleteTeam teamslug) st)
      else st)"

text \<open>The \<open>descrition\<close> argument is not used: both calls pass \<open>reponame\<close> twice.\<close>

definition CreateRepository ::
  "GoliacReconciliatorImpl \<Rightarrow> bool \<Rightarrow> string \<Rightarrow> string \<Rightarrow> string list \<Rightarrow> string list \<Rightarrow> bool
    \<Rightarrow> 'p rstate \<Rightarrow> 'p rstate" where
  "CreateRepository r dryrun reponame descrition writers readers public st =
     forward r dryrun (OpCreateRepository reponame reponame writers readers public)
       (on_mirror (OpCreateRepository reponame reponame writers readers public) st)"

definition UpdateRepositoryAddTeamAccess ::
  "GoliacReconciliatorImpl \<Rightarrow> bool \<Rightarrow> string \<Rightarrow> string \<Rightarrow> string \<Rightarrow> 'p rstate \<Rightarrow> 'p rstate" where
  "UpdateRepositoryAddTeamAccess r dryrun reponame teamslug permission st =
     forward r dryrun (OpUpdateRepositoryAddTeamAccess reponame teamslug permission)
       (on_mirror (OpUpdateRepositoryAddTeamAccess reponame teamslug permission) st)"

definition UpdateRepositoryUpdateTeamAccess ::
  "GoliacReconciliatorImpl \<Rightarrow> bool \<Rightarrow> string \<Rightarrow> string \<Rightarrow> string \<Rightarrow> 'p rstate \<Rightarrow> 'p rstate" where
  "UpdateRepositoryUpdateTeamAccess r dryrun reponame teamslug permission st =
     forward r dryrun (OpUpdateRepositoryUpdateTeamAccess reponame teamslug permission)
       (on_mirror (OpUpdateRepositoryUpdateTeamAccess reponame teamslug permission) st)"

definition UpdateRepositoryRemoveTeamAccess ::
  "GoliacReconciliatorImpl \<Rightarrow> bool \<Rightarrow> string \<Rightarrow> string \<Rightarrow> 'p rstate \<Rightarrow> 'p rstate" where
  "UpdateRepositoryRemoveTeamAccess r dryrun reponame teamslug st =
     forward r dryrun (OpUpdateRepositoryRemoveTeamAccess reponame teamslug)
       (on_mirror (OpUpdateRepositoryRemoveTeamAccess reponame teamslug) st)"

definition DeleteRepository ::
  "GoliacReconciliatorImpl \<Rightarrow> bool \<Rightarrow> string \<Rightarrow> 'p rstate \<Rightarrow> 'p rstate" where
  "DeleteRepository r dryrun reponame st =
     (if AllowDestructiveRepositories (DestructiveOps (repoconfig r))
      then forward r dryrun (OpDeleteRepository reponame)
             (on_mirror (OpDeleteRepository reponame) st)
      else st)"

definition UpdateRepositoryUpdatePrivate ::
  "GoliacReconciliatorImpl \<Rightarrow> bool \<Rightarrow> string \<Rightarrow> bool \<Rightarrow> 'p rstate \<Rightarrow> 'p rstate" where
  "UpdateRepositoryUpdatePrivate r dryrun reponame private st =
     forward r dryrun (OpUpdateRepositoryUpdatePrivate reponame private)
       (on_mirror (OpUpdateRepositoryUpdatePrivate reponame private) st)"

definition UpdateRepositoryUpdateArchived ::
  "GoliacReconciliatorImpl \<Rightarrow> bool \<Rightarrow> string \<Rightarrow> bool \<Rightarrow> 'p rstate \<Rightarrow> 'p rstate" where
  "UpdateRepositoryUpdateArchived r dryrun reponame archived st =
     forward r dryrun (OpUpdateRepositoryUpdateArchived reponame archived)
       (on_mirror (OpUpdateRepositoryUpdateArchived reponame archived) st)"

text \<open>The three ruleset methods do not touch the mirror.\<close>

definition AddRuleset ::
  "GoliacReconciliatorImpl \<Rightarrow> bool \<Rightarrow> 'p GithubRuleSet \<Rightarrow> 'p rstate \<Rightarrow> 'p rstate" where
  "AddRuleset r dryrun ruleset st = forward r dryrun (OpAddRuleset ruleset) st"

definition UpdateRuleset ::
  "GoliacReconciliatorImpl \<Rightarrow> bool \<Rightarrow> 'p GithubRuleSet \<Rightarrow> 'p rstate \<Rightarrow> 'p rstate" where
  "UpdateRuleset r dryrun ruleset st = forward r dryrun (OpUpdateRuleset ruleset) st"

definition DeleteRuleset ::
  "GoliacReconciliatorImpl \<Rightarrow> bool \<Rightarrow> int \<Rightarrow> 'p rstate \<Rightarrow> 'p rstate" where
  "DeleteRuleset r dryrun rulesetid st =
     (if AllowDestructiveRulesets (DestructiveOps (repoconfig r))
      then forward r dryrun (OpDeleteRuleset rulesetid) st
      else st)"

definition UpdateRepositorySetExternalUser ::
  "GoliacReconciliatorImpl \<Rightarrow> bool \<Rightarrow> string \<Rightarrow> string \<Rightarrow> string \<Rightarrow> 'p rstate \<Rightarrow> 'p rstate" where
  "UpdateRepositorySetExternalUser r dryrun reponame collaboatorGithubId permission st =
     forward r dryrun (OpUpdateRepositorySetExternalUser reponame collaboatorGithubId permission)
       (on_mirror (OpUpdateRepositorySetExternalUser reponame collaboatorGithubId permission) st)"

definition UpdateRepositoryRemoveExternalUser ::
  "GoliacReconciliatorImpl \<Rightarrow> bool \<Rightarrow> string \<Rightarrow> string \<Rightarrow> 'p rstate \<Rightarrow> 'p rstate" where
  "UpdateRepositoryRemoveExternalUser r dryrun reponame collaboatorGithubId st =
     forward r dryrun (OpUpdateRepositoryRemoveExternalUser reponame collaboatorGithubId)
       (on_mirror (OpUpdateRepositoryRemoveExternalUser reponame collaboatorGithubId) st)"

definition Begin :: "GoliacReconciliatorImpl \<Rightarrow> bool \<Rightarrow> 'p rstate \<Rightarrow> 'p rstate" where
  "Begin r dryrun st = forward r dryrun OpBegin st"

definition Rollback :: "GoliacReconciliatorImpl \<Rightarrow> bool \<Rightarrow> error \<Rightarrow> 'p rstate \<Rightarrow> 'p rstate" where
  "Rollback r dryrun err st = forward r dryrun (OpRollback err) st"

definition Commit :: "GoliacReconciliatorImpl \<Rightarrow> bool \<Rightarrow> 'p rstate \<Rightarrow> 'p rstate" where
  "Commit r dryrun st = forward r dryrun OpCommit st"

section \<open>The helpers of the passes\<close>

text \<open>
  Modelled from the spec: \<open>entity.StringArrayEquivalent\<close> is not in the two source files.
  Section 3 and section 4.4 say the comparison of two string collections is multiset
  equality; the callers name the other two results what is to remove (in the live list and
  not in the declared one) and what is to add (in the declared list and not in the live
  one).  The first argument is the declared list, the second the live one.
\<close>

fun same_elements :: "string list \<Rightarrow> string list \<Rightarrow> bool" where
  "same_elements [] ys = (ys = [])"
| "same_elements (x # xs) ys = (x \<in> set ys \<and> same_elements xs (remove1 x ys))"

definition StringArrayEquivalent ::
  "string list \<Rightarrow> string list \<Rightarrow> bool \<times> string list \<times> string list" where
  "StringArrayEquivalent a b =
     (same_elements a b, filter (\<lambda>x. x \<notin> set a) b, filter (\<lambda>x. x \<notin> set b) a)"

text \<open>
  Modelled from the spec: \<open>CompareEntities\<close> is not in the two source files.  Section 4.1:
  for every key exactly one callback fires, \<open>onAdded\<close> when the key is only declared,
  \<open>onRemoved\<close> when it is only live, \<open>onChanged\<close> when it is in both and \<open>equal\<close>
  is false, and none otherwise; the callbacks run one after the other.  The declared keys
  are visited first, then the live ones.  The argument that is nil in a callback is left
  out.
\<close>

definition CompareEntities ::
  "(string \<times> 'a) list \<Rightarrow> (string \<times> 'a) list \<Rightarrow> ('a \<Rightarrow> 'a \<Rightarrow> bool)
    \<Rightarrow> (string \<Rightarrow> 'a \<Rightarrow> 's \<Rightarrow> 's) \<Rightarrow> (string \<Rightarrow> 'a \<Rightarrow> 's \<Rightarrow> 's)
    \<Rightarrow> (string \<Rightarrow> 'a \<Rightarrow> 'a \<Rightarrow> 's \<Rightarrow> 's) \<Rightarrow> 's \<Rightarrow> 's" where
  "CompareEntities lmap rmap equal onAdded onRemoved onChanged s =
     fold (\<lambda>(k, rv) s. case map_of lmap k of None \<Rightarrow> onRemoved k rv s | Some lv \<Rightarrow> s) rmap
       (fold (\<lambda>(k, lv) s.
                case map_of rmap k of
                  None \<Rightarrow> onAdded k lv s
                | Some rv \<Rightarrow> if equal lv rv then s else onChanged k lv rv s)
          lmap s)"

text \<open>The loop \<open>for k, v := range m { c[k] = v }\<close> that copies a map.\<close>

definition copy_map :: "(string \<times> 'a) list \<Rightarrow> (string \<times> 'a) list" where
  "copy_map m = fold (\<lambda>(k, v) c. AList.update k v c) m []"

text \<open>
  The loop that translates names through a table of users and keeps the GithubID of those
  it finds: \<open>if u, ok := table[m]; ok { out = append(out, u.Spec.GithubID) }\<close>.
\<close>

definition known_ids :: "(string \<times> User) list \<Rightarrow> string list \<Rightarrow> string list" where
  "known_ids table names =
     concat (map (\<lambda>m. case map_of table m of None \<Rightarrow> [] | Some u \<Rightarrow> [Spec_GithubID u]) names)"

section \<open>The users pass\<close>

text \<open>
  \<open>rUsers\<close> maps each live identifier to itself.  In the first loop the lookup
  \<open>user, ok := rUsers[lUser.Spec.GithubID]\<close> binds \<open>user\<close> to the empty string when the
  key is missing, and that \<open>user\<close> is what the pass hands to \<open>AddUserToOrg\<close>.
\<close>

definition reconciliateUsers ::
  "GoliacReconciliatorImpl \<Rightarrow> 'p GoliacLocal \<Rightarrow> bool \<Rightarrow> 'p rstate \<Rightarrow> error option \<times> 'p rstate" where
  "reconciliateUsers r local dryrun st0 =
     (let ghUsers = users (remote st0);
          rUsers0 = fold (\<lambda>u m. AList.update u u m) ghUsers [];
          (rUsers, st1) =
            fold (\<lambda>(_, lUser) (rUsers, st).
                    case map_of rUsers (Spec_GithubID lUser) of
                      None \<Rightarrow> (rUsers, AddUserToOrg r dryrun [] st)
                    | Some user \<Rightarrow> (AList.delete user rUsers, st))
                 (Users local) (rUsers0, st0);
          st2 = fold (\<lambda>(_, rUser) st. RemoveUserFromOrg r dryrun rUser st) rUsers st1
      in (None, st2))"

section \<open>The teams pass\<close>

text \<open>
  \<open>slugTeams\<close>: for every declared team the team itself, with its members and owners,
  and its \<open>-owners\<close> sibling; then the \<open>everyone\<close> team when it is enabled.
\<close>

definition slugTeams_of ::
  "'p externals \<Rightarrow> GoliacReconciliatorImpl \<Rightarrow> 'p GoliacLocal \<Rightarrow> (string \<times> GithubTeam) list" where
  "slugTeams_of ext r local =
     (let slugTeams =
            fold (\<lambda>(teamname, teamvalue) slugTeams.
                    let members = Spec_Members teamvalue @ Spec_Owners teamvalue;
                        teamslug = slug_Make ext teamname
                    in AList.update (teamslug @ ''-owners'')
                         \<lparr>Name = teamname @ ''-owners'', Slug = teamslug @ ''-owners'',
                          Members = Spec_Owners teamvalue\<rparr>
                         (AList.update teamslug
                            \<lparr>Name = teamname, Slug = teamslug, Members = members\<rparr> slugTeams))
                 (Teams local) []
      in if EveryoneTeamEnabled (repoconfig r)
         then AList.update ''everyone''
                \<lparr>Name = ''everyone'', Slug = ''everyone'', Members = map fst (Users local)\<rparr>
                slugTeams
         else slugTeams)"

definition compareTeam :: "GithubTeam \<Rightarrow> GithubTeam \<Rightarrow> bool" where
  "compareTeam lTeam rTeam = fst (StringArrayEquivalent (Members lTeam) (Members rTeam))"

definition teams_onAdded ::
  "GoliacReconciliatorImpl \<Rightarrow> 'p GoliacLocal \<Rightarrow> bool \<Rightarrow> string \<Rightarrow> GithubTeam
    \<Rightarrow> 'p rstate \<Rightarrow> 'p rstate" where
  "teams_onAdded r local dryrun key lTeam st =
     CreateTeam r dryrun (Slug lTeam) (Name lTeam) (known_ids (Users local) (Members lTeam)) st"

definition teams_onRemoved ::
  "GoliacReconciliatorImpl \<Rightarrow> bool \<Rightarrow> string \<Rightarrow> GithubTeam \<Rightarrow> 'p rstate \<Rightarrow> 'p rstate" where
  "teams_onRemoved r dryrun key rTeam st = DeleteTeam r dryrun (Slug rTeam) st"

definition teams_onChanged ::
  "GoliacReconciliatorImpl \<Rightarrow> 'p GoliacLocal \<Rightarrow> bool \<Rightarrow> string \<Rightarrow> GithubTeam \<Rightarrow> GithubTeam
    \<Rightarrow> 'p rstate \<Rightarrow> 'p rstate" where
  "teams_onChanged r local dryrun slugTeam lTeam rTeam st =
     (let localMembers0 =
            fold (\<lambda>ghuserid lm. AList.update ghuserid True lm)
              (known_ids (Users local) (Members lTeam)) [];
          (localMembers, st1) =
            fold (\<lambda>m (lm, st).
                    case map_of lm m of
                      None \<Rightarrow> (lm, UpdateTeamRemoveMember r dryrun slugTeam m st)
                    | Some _ \<Rightarrow> (AList.delete m lm, st))
                 (Members rTeam) (localMembers0, st)
      in fold (\<lambda>(m, _) st. UpdateTeamAddMember r dryrun slugTeam m ''member'' st)
           localMembers st1)"

definition reconciliateTeams ::
  "'p externals \<Rightarrow> GoliacReconciliatorImpl \<Rightarrow> 'p GoliacLocal \<Rightarrow> bool \<Rightarrow> 'p rstate
    \<Rightarrow> error option \<times> 'p rstate" where
  "reconciliateTeams ext r local dryrun st =
     (let ghTeams = teams (remote st);
          rTeams = copy_map ghTeams;
          slugTeams = slugTeams_of ext r local
      in (None,
          CompareEntities slugTeams rTeams compareTeam
            (teams_onAdded r local dryrun) (teams_onRemoved r dryrun)
            (teams_onChanged r local dryrun) st))"

section \<open>The repositories pass\<close>

record GithubRepoComparable =
  IsPublic :: bool
  IsArchived :: bool
  Writers :: "string list"
  Readers :: "string list"
  ExternalUserReaders :: "string list"
  ExternalUserWriters :: "string list"

text \<open>The first loop: one comparable for each live repository, with its external users.\<close>

definition live_comparable :: "GithubRepository \<Rightarrow> GithubRepoComparable" where
  "live_comparable v =
     fold (\<lambda>(cGithubid, cPermission) repo.
             if cPermission = ''WRITE''
             then repo\<lparr>ExternalUserWriters := ExternalUserWriters repo @ [cGithubid]\<rparr>
             else repo\<lparr>ExternalUserReaders := ExternalUserReaders repo @ [cGithubid]\<rparr>)
       (ExternalUsers_of v)
       \<lparr>IsPublic = \<not> IsPrivate v, IsArchived = repo_IsArchived v, Writers = [], Readers = [],
        ExternalUserReaders = [], ExternalUserWriters = []\<rparr>"

text \<open>The second loop turns teams->repos into repos->teams, through the pointers of \<open>rRepos\<close>.\<close>

definition rRepos_of :: "'p MutableGoliacRemoteImpl \<Rightarrow> (string \<times> GithubRepoComparable) list" where
  "rRepos_of m =
     (let rRepos0 = fold (\<lambda>(k, v) rRepos. AList.update k (live_comparable v) rRepos)
                      (repositories m) []
      in fold (\<lambda>(t, repos) rRepos.
                 fold (\<lambda>(rn, p) rRepos.
                         case map_of rRepos rn of
                           None \<Rightarrow> rRepos
                         | Some rr \<Rightarrow>
                             if Permission p = ''ADMIN'' \<or> Permission p = ''WRITE''
                             then AList.update rn (rr\<lparr>Writers := Writers rr @ [t]\<rparr>) rRepos
                             else AList.update rn (rr\<lparr>Readers := Readers rr @ [t]\<rparr>) rRepos)
                   repos rRepos)
           (teamRepositories m) rRepos0)"

definition local_comparable ::
  "'p externals \<Rightarrow> GoliacReconciliatorImpl \<Rightarrow> 'p GoliacLocal \<Rightarrow> string \<Rightarrow> string \<Rightarrow> Repository
    \<Rightarrow> GithubRepoComparable" where
  "local_comparable ext r local teamsreponame reponame lRepo =
     (let writers0 = map (slug_Make ext) (Spec_Writers lRepo);
          writers1 = (case Owner lRepo of None \<Rightarrow> writers0
                      | Some owner \<Rightarrow> writers0 @ [slug_Make ext owner]);
          readers0 = map (slug_Make ext) (Spec_Readers lRepo);
          writers = (if reponame = teamsreponame
                     then writers1 @
                          map (\<lambda>(teamname, _). slug_Make ext teamname @ ''-owners'') (Teams local)
                     else writers1);
          readers = (if EveryoneTeamEnabled (repoconfig r) then readers0 @ [''everyone'']
                     else readers0);
          eReaders = known_ids (ExternalUsers local) (Spec_ExternalUserReaders lRepo);
          eWriters = known_ids (ExternalUsers local) (Spec_ExternalUserWriters lRepo)
      in \<lparr>IsPublic = Spec_IsPublic lRepo, IsArchived = Archived lRepo, Writers = writers,
          Readers = readers, ExternalUserReaders = eReaders, ExternalUserWriters = eWriters\<rparr>)"

definition lRepos_of ::
  "'p externals \<Rightarrow> GoliacReconciliatorImpl \<Rightarrow> 'p GoliacLocal \<Rightarrow> string
    \<Rightarrow> (string \<times> GithubRepoComparable) list" where
  "lRepos_of ext r local teamsreponame =
     fold (\<lambda>(reponame, lRepo) lRepos.
             AList.update (slug_Make ext reponame)
               (local_comparable ext r local teamsreponame reponame lRepo) lRepos)
       (Repositories local) []"

definition compareRepos :: "GithubRepoComparable \<Rightarrow> GithubRepoComparable \<Rightarrow> bool" where
  "compareRepos lRepo rRepo =
     (if IsArchived lRepo \<noteq> IsArchived rRepo then False
      else if IsPublic lRepo \<noteq> IsPublic rRepo then False
      else if \<not> fst (StringArrayEquivalent (Readers lRepo) (Readers rRepo)) then False
      else if \<not> fst (StringArrayEquivalent (Writers lRepo) (Writers rRepo)) then False
      else if \<not> fst (StringArrayEquivalent (ExternalUserReaders lRepo)
                        (ExternalUserReaders rRepo)) then False
      else if \<not> fst (StringArrayEquivalent (ExternalUserWriters lRepo)
                        (ExternalUserWriters rRepo)) then False
      else True)"

definition repos_onAdded ::
  "GoliacReconciliatorImpl \<Rightarrow> bool \<Rightarrow> string \<Rightarrow> GithubRepoComparable \<Rightarrow> 'p rstate \<Rightarrow> 'p rstate" where
  "repos_onAdded r dryrun reponame lRepo st =
     CreateRepository r dryrun reponame reponame (Writers lRepo) (Readers lRepo)
       (IsPublic lRepo) st"

definition repos_onRemoved ::
  "GoliacReconciliatorImpl \<Rightarrow> bool \<Rightarrow> string \<Rightarrow> GithubRepoComparable \<Rightarrow> 'p rstate \<Rightarrow> 'p rstate" where
  "repos_onRemoved r dryrun reponame rRepo st = DeleteRepository r dryrun reponame st"

text \<open>
  The last two blocks of \<open>onChanged\<close>, on the external users.  The inner search loop
  that sets \<open>found\<close> is the membership test.
\<close>

definition external_users_onChanged ::
  "GoliacReconciliatorImpl \<Rightarrow> bool \<Rightarrow> string \<Rightarrow> GithubRepoComparable \<Rightarrow> GithubRepoComparable
    \<Rightarrow> 'p rstate \<Rightarrow> 'p rstate" where
  "external_users_onChanged r dryrun reponame lRepo rRepo st =
     (let (resEreader, ereaderToRemove, ereaderToAdd) =
            StringArrayEquivalent (ExternalUserReaders lRepo) (ExternalUserReaders rRepo);
          (resEWriter, ewriteToRemove, ewriteToAdd) =
            StringArrayEquivalent (ExternalUserWriters lRepo) (ExternalUserWriters rRepo);
          st1 = (if \<not> resEreader
                 then fold (\<lambda>eReader st.
                              UpdateRepositorySetExternalUser r dryrun reponame eReader ''pull'' st)
                        ereaderToAdd
                        (fold (\<lambda>eReader st.
                                 if eReader \<in> set ewriteToAdd then st
                                 else UpdateRepositoryRemoveExternalUser r dryrun reponame eReader st)
                           ereaderToRemove st)
                 else st)
      in if \<not> resEWriter
         then fold (\<lambda>eWriter st.
                      UpdateRepositorySetExternalUser r dryrun reponame eWriter ''push'' st)
                ewriteToAdd
                (fold (\<lambda>eWriter st.
                         if eWriter \<in> set ereaderToAdd then st
                         else UpdateRepositoryRemoveExternalUser r dryrun reponame eWriter st)
                   ewriteToRemove st1)
         else st1)"

definition team_access_onChanged ::
  "GoliacReconciliatorImpl \<Rightarrow> bool \<Rightarrow> string \<Rightarrow> string \<Rightarrow> string list \<Rightarrow> string list
    \<Rightarrow> 'p rstate \<Rightarrow> 'p rstate" where
  "team_access_onChanged r dryrun reponame permission declared live st =
     (let (res, toRemove, toAdd) = StringArrayEquivalent declared live
      in if \<not> res
         then fold (\<lambda>teamSlug st. UpdateRepositoryRemoveTeamAccess r dryrun reponame teamSlug st)
                toRemove
                (fold (\<lambda>teamSlug st.
                         UpdateRepositoryAddTeamAccess r dryrun reponame teamSlug permission st)
                   toAdd st)
         else st)"

definition repos_onChanged ::
  "GoliacReconciliatorImpl \<Rightarrow> bool \<Rightarrow> string \<Rightarrow> GithubRepoComparable \<Rightarrow> GithubRepoComparable
    \<Rightarrow> 'p rstate \<Rightarrow> 'p rstate" where
  "repos_onChanged r dryrun reponame lRepo rRepo st =
     (let st1 = (if IsPublic lRepo \<noteq> IsPublic rRepo
                 then UpdateRepositoryUpdatePrivate r dryrun reponame (\<not> IsPublic lRepo) st
                 else st);
          st2 = (if IsArchived lRepo \<noteq> IsArchived rRepo
                 then UpdateRepositoryUpdateArchived r dryrun reponame (IsArchived lRepo) st1
                 else st1);
          st3 = team_access_onChanged r dryrun reponame ''pull'' (Readers lRepo) (Readers rRepo) st2;
          st4 = team_access_onChanged r dryrun reponame ''push'' (Writers lRepo) (Writers rRepo) st3
      in external_users_onChanged r dryrun reponame lRepo rRepo st4)"

definition reconciliateRepositories ::
  "'p externals \<Rightarrow> GoliacReconciliatorImpl \<Rightarrow> 'p GoliacLocal \<Rightarrow> string \<Rightarrow> bool \<Rightarrow> 'p rstate
    \<Rightarrow> error option \<times> 'p rstate" where
  "reconciliateRepositories ext r local teamsreponame dryrun st =
     (let rRepos = rRepos_of (remote st);
          lRepos = lRepos_of ext r local teamsreponame
      in (None,
          CompareEntities lRepos rRepos compareRepos
            (repos_onAdded r dryrun) (repos_onRemoved r dryrun) (repos_onChanged r dryrun) st))"

section \<open>The rulesets pass\<close>

definition local_ruleset ::
  "'p externals \<Rightarrow> 'p GoliacLocal \<Rightarrow> string \<Rightarrow> 'p RuleSet \<Rightarrow> 'p GithubRuleSet" where
  "local_ruleset ext local pattern rs =
     \<lparr>grs_Name = rs_Name rs, Id = 0, Enforcement = Spec_Enforcement rs,
      BypassApps = fold (\<lambda>(appName, mode) m. AList.update appName mode m) (Spec_BypassApps rs) [],
      OnInclude = Spec_On_Include rs, OnExclude = Spec_On_Exclude rs,
      Rules = fold (\<lambda>(ruletype, parameters) m. AList.update ruletype parameters m)
                (Spec_Rules rs) [],
      grs_Repositories =
        map (slug_Make ext)
          (filter (\<lambda>reponame. regexp_Match ext pattern (slug_Make ext reponame))
             (map fst (Repositories local)))\<rparr>"

text \<open>
  The loop over \<open>conf.Rulesets\<close> that fills \<open>lgrs\<close>; each of its two \<open>return\<close>
  statements ends the pass with an error.
\<close>

fun lgrs_of ::
  "'p externals \<Rightarrow> 'p GoliacLocal \<Rightarrow> RulesetConfig list \<Rightarrow> (string \<times> 'p GithubRuleSet) list
    \<Rightarrow> error + (string \<times> 'p GithubRuleSet) list" where
  "lgrs_of ext local [] lgrs = Inr lgrs"
| "lgrs_of ext local (confrs # rest) lgrs =
     (case regexp_Compile ext (Pattern confrs) of
        Some err \<Rightarrow> Inl (NotAbleToParseRegexp (Pattern confrs) err)
      | None \<Rightarrow>
          (case map_of (RuleSets local) (Ruleset confrs) of
             None \<Rightarrow> Inl (NotAbleToFindRuleset (Ruleset confrs))
           | Some rs \<Rightarrow>
               lgrs_of ext local rest
                 (AList.update (rs_Name rs) (local_ruleset ext local (Pattern confrs) rs) lgrs)))"

definition compareRulesets :: "'p externals \<Rightarrow> 'p GithubRuleSet \<Rightarrow> 'p GithubRuleSet \<Rightarrow> bool" where
  "compareRulesets ext lrs rrs =
     (if Enforcement lrs \<noteq> Enforcement rrs then False
      else if length (BypassApps lrs) \<noteq> length (BypassApps rrs) then False
      else if list_ex (\<lambda>(k, v). (case map_of (BypassApps rrs) k of None \<Rightarrow> [] | Some m \<Rightarrow> m) \<noteq> v)
                (BypassApps lrs) then False
      else if \<not> fst (StringArrayEquivalent (OnInclude lrs) (OnInclude rrs)) then False
      else if \<not> fst (StringArrayEquivalent (OnExclude lrs) (OnExclude rrs)) then False
      else if length (Rules lrs) \<noteq> length (Rules rrs) then False
      else if list_ex (\<lambda>(k, v). \<not> CompareRulesetParameters ext k v
                                    (case map_of (Rules rrs) k of
                                       None \<Rightarrow> zero_RuleSetParameters ext | Some p \<Rightarrow> p))
                (Rules lrs) then False
      else if \<not> fst (StringArrayEquivalent (grs_Repositories lrs) (grs_Repositories rrs))
      then False
      else True)"

definition rulesets_onAdded ::
  "GoliacReconciliatorImpl \<Rightarrow> bool \<Rightarrow> string \<Rightarrow> 'p GithubRuleSet \<Rightarrow> 'p rstate \<Rightarrow> 'p rstate" where
  "rulesets_onAdded r dryrun rulesetname lRuleset st = AddRuleset r dryrun lRuleset st"

definition rulesets_onRemoved ::
  "GoliacReconciliatorImpl \<Rightarrow> bool \<Rightarrow> string \<Rightarrow> 'p GithubRuleSet \<Rightarrow> 'p rstate \<Rightarrow> 'p rstate" where
  "rulesets_onRemoved r dryrun rulesetname rRuleset st = DeleteRuleset r dryrun (Id rRuleset) st"

definition rulesets_onChanged ::
  "GoliacReconciliatorImpl \<Rightarrow> bool \<Rightarrow> string \<Rightarrow> 'p GithubRuleSet \<Rightarrow> 'p GithubRuleSet
    \<Rightarrow> 'p rstate \<Rightarrow> 'p rstate" where
  "rulesets_onChanged r dryrun rulesetname lRuleset rRuleset st =
     UpdateRuleset r dryrun (lRuleset\<lparr>Id := Id rRuleset\<rparr>) st"

definition reconciliateRulesets ::
  "'p externals \<Rightarrow> GoliacReconciliatorImpl \<Rightarrow> 'p GoliacLocal \<Rightarrow> RepositoryConfig \<Rightarrow> bool
    \<Rightarrow> 'p rstate \<Rightarrow> error option \<times> 'p rstate" where
  "reconciliateRulesets ext r local conf dryrun st =
     (case lgrs_of ext local (Rulesets conf) [] of
        Inl err \<Rightarrow> (Some err, st)
      | Inr lgrs \<Rightarrow>
          (let rgrs = rulesets (remote st)
           in (None,
               CompareEntities lgrs rgrs (compareRulesets ext)
                 (rulesets_onAdded r dryrun) (rulesets_onRemoved r dryrun)
                 (rulesets_onChanged r dryrun) st)))"

section \<open>Reconciliate\<close>

definition start :: "'p MutableGoliacRemoteImpl \<Rightarrow> 'p rstate" where
  "start m = \<lparr>remote = m, mirror_calls = [], executor_calls = []\<rparr>"

definition Reconciliate ::
  "'p externals \<Rightarrow> GoliacReconciliatorImpl \<Rightarrow> 'p GoliacLocal \<Rightarrow> 'p GoliacRemote \<Rightarrow> string \<Rightarrow> bool
    \<Rightarrow> error option \<times> 'p rstate" where
  "Reconciliate ext r local g teamsreponame dryrun =
     (let rremote = NewMutableGoliacRemoteImpl g;
          st0 = Begin r dryrun (start rremote)
      in case reconciliateUsers r local dryrun st0 of
           (Some err, st1) \<Rightarrow> (Some err, Rollback r dryrun err st1)
         | (None, st1) \<Rightarrow>
      (case reconciliateTeams ext r local dryrun st1 of
           (Some err, st2) \<Rightarrow> (Some err, Rollback r dryrun err st2)
         | (None, st2) \<Rightarrow>
      (case reconciliateRepositories ext r local teamsreponame dryrun st2 of
           (Some err, st3) \<Rightarrow> (Some err, Rollback r dryrun err st3)
         | (None, st3) \<Rightarrow>
      if IsEnterprise g
      then (case reconciliateRulesets ext r local (repoconfig r) dryrun st3 of
              (Some err, st4) \<Rightarrow> (Some err, Rollback r dryrun err st4)
            | (None, st4) \<Rightarrow> (None, Commit r dryrun st4))
      else (None, Commit r dryrun st3))))"

section \<open>A faithful Executor\<close>

text \<open>
  Modelled from the spec: the Executor is an interface and no implementation of it is in
  the two source files.  Section 4.3 says it reads \<open>dryrun\<close> as "log what you would do
  but do not touch the remote", and the glossary that it performs the real mutations.  A
  faithful one changes the live state by each forwarded call as the call says: as the mirror
  does for users, teams and repositories, by name for rulesets; the transaction calls change
  nothing.
\<close>

definition executor_apply :: "bool \<times> 'p op \<Rightarrow> 'p GoliacRemote \<Rightarrow> 'p GoliacRemote" where
  "executor_apply call g =
     (case call of (dryrun, c) \<Rightarrow>
        if dryrun then g
        else (case c of
                OpAddRuleset grs \<Rightarrow>
                  g\<lparr>remote_RuleSets := AList.update (grs_Name grs) grs (remote_RuleSets g)\<rparr>
              | OpUpdateRuleset grs \<Rightarrow>
                  g\<lparr>remote_RuleSets := AList.update (grs_Name grs) grs (remote_RuleSets g)\<rparr>
              | OpDeleteRuleset rulesetid \<Rightarrow>
                  g\<lparr>remote_RuleSets :=
                      filter (\<lambda>(_, grs). Id grs \<noteq> rulesetid) (remote_RuleSets g)\<rparr>
              | _ \<Rightarrow>
                  (let m = mirror_apply c (NewMutableGoliacRemoteImpl g)
                   in g\<lparr>remote_Users := users m, remote_Teams := teams m,
                        remote_Repositories := repositories m,
                        remote_TeamRepositories := teamRepositories m\<rparr>)))"

definition faithful_executor :: "(bool \<times> 'p op) list \<Rightarrow> 'p GoliacRemote \<Rightarrow> 'p GoliacRemote" where
  "faithful_executor calls g = fold executor_apply calls g"

section \<open>Vocabulary of the properties\<close>

text \<open>
  The transaction calls, and the calls that the configuration forbids the mediator to
  forward.
\<close>

fun is_envelope :: "'p op \<Rightarrow> bool" where
  "is_envelope OpBegin = True"
| "is_envelope (OpRollback err) = True"
| "is_envelope OpCommit = True"
| "is_envelope _ = False"

fun gated :: "GoliacReconciliatorImpl \<Rightarrow> 'p op \<Rightarrow> bool" where
  "gated r (OpRemoveUserFromOrg ghuserid) =
     (\<not> AllowDestructiveUsers (DestructiveOps (repoconfig r)))"
| "gated r (OpDeleteTeam teamslug) =
     (\<not> AllowDestructiveTeams (DestructiveOps (repoconfig r)))"
| "gated r (OpDeleteRepository reponame) =
     (\<not> AllowDestructiveRepositories (DestructiveOps (repoconfig r)))"
| "gated r (OpDeleteRuleset rulesetid) =
     (\<not> AllowDestructiveRulesets (DestructiveOps (repoconfig r)))"
| "gated r _ = False"

text \<open>
  What a call that a pass forwards to the Executor looks like: there is an Executor, the
  call carries the flag of the run, it is no transaction call, and the configuration
  allows it.
\<close>

definition pass_call :: "GoliacReconciliatorImpl \<Rightarrow> bool \<Rightarrow> bool \<times> 'p op \<Rightarrow> bool" where
  "pass_call r dryrun call =
     (executor r \<and> fst call = dryrun \<and> \<not> is_envelope (snd call) \<and> \<not> gated r (snd call))"

text \<open>
  \<open>appended Q st st'\<close>: from \<open>st\<close> to \<open>st'\<close> both logs have only grown, and the
  new calls of the Executor all satisfy \<open>Q\<close>.
\<close>

definition appended :: "(bool \<times> 'p op \<Rightarrow> bool) \<Rightarrow> 'p rstate \<Rightarrow> 'p rstate \<Rightarrow> bool" where
  "appended Q st st' =
     ((\<exists>m. mirror_calls st' = mirror_calls st @ m) \<and>
      (\<exists>new. executor_calls st' = executor_calls st @ new \<and> list_all Q new))"

text \<open>Two states that differ at most in the flags the Executor received.\<close>

definition same_but_flag :: "'p rstate \<Rightarrow> 'p rstate \<Rightarrow> bool" where
  "same_but_flag st st' =
     (remote st = remote st' \<and> mirror_calls st = mirror_calls st' \<and>
      map snd (executor_calls st) = map snd (executor_calls st'))"

section \<open>Concrete inputs\<close>

definition no_destructive :: DestructiveOperations where
  "no_destructive =
     \<lparr>AllowDestructiveUsers = False, AllowDestructiveTeams = False,
      AllowDestructiveRepositories = False, AllowDestructiveRulesets = False\<rparr>"

definition plain_reconciliator :: GoliacReconciliatorImpl where
  "plain_reconciliator =
     \<lparr>executor = True,
      repoconfig = \<lparr>EveryoneTeamEnabled = False, Rulesets = [], DestructiveOps = no_destructive\<rparr>\<rparr>"

definition empty_mirror :: "unit MutableGoliacRemoteImpl" where
  "empty_mirror = \<lparr>users = [], teams = [], repositories = [], teamRepositories = [], rulesets = []\<rparr>"

definition local_alice :: "unit GoliacLocal" where
  "local_alice =
     \<lparr>Users = [(''alice'', \<lparr>Spec_GithubID = ''ghAlice''\<rparr>)], ExternalUsers = [], Teams = [],
      Repositories = [], RuleSets = []\<rparr>"

definition local_nothing :: "unit GoliacLocal" where
  "local_nothing =
     \<lparr>Users = [], ExternalUsers = [], Teams = [], Repositories = [], RuleSets = []\<rparr>"

definition live_nothing :: "unit GoliacRemote" where
  "live_nothing =
     \<lparr>remote_Users = [], remote_Teams = [], remote_Repositories = [],
      remote_TeamRepositories = [], remote_RuleSets = [], IsEnterprise = False\<rparr>"

text \<open>
  Stand-ins for the library: a slug function that leaves slugs alone, a compiler that
  accepts every pattern but the unclosed bracket, and for a pattern without metacharacters
  the match of \<open>Regexp.Match\<close>, which is the search of the pattern anywhere in the
  subject.
\<close>

fun is_prefix :: "string \<Rightarrow> string \<Rightarrow> bool" where
  "is_prefix [] ys = True"
| "is_prefix (x # xs) [] = False"
| "is_prefix (x # xs) (y # ys) = (x = y \<and> is_prefix xs ys)"

fun occurs_in :: "string \<Rightarrow> string \<Rightarrow> bool" where
  "occurs_in p [] = (p = [])"
| "occurs_in p (y # ys) = (is_prefix p (y # ys) \<or> occurs_in p ys)"

definition plain_externals :: "unit externals" where
  "plain_externals =
     \<lparr>slug_Make = (\<lambda>s. s),
      regexp_Compile = (\<lambda>p. if p = ''['' then Some ''missing closing ]'' else None),
      regexp_Match = occurs_in,
      CompareRulesetParameters = (\<lambda>k a b. a = b),
      zero_RuleSetParameters = ()\<rparr>"

definition bad_pattern_reconciliator :: GoliacReconciliatorImpl where
  "bad_pattern_reconciliator =
     \<lparr>executor = True,
      repoconfig = \<lparr>EveryoneTeamEnabled = False,
                    Rulesets = [\<lparr>Pattern = ''['', Ruleset = ''required-checks''\<rparr>],
                    DestructiveOps = no_destructive\<rparr>\<rparr>"

definition live_enterprise :: "unit GoliacRemote" where
  "live_enterprise = live_nothing\<lparr>IsEnterprise := True\<rparr>"

definition live_ghost :: "unit GoliacRemote" where
  "live_ghost = live_nothing\<lparr>remote_Users := [''ghost'']\<rparr>"

definition local_svc :: "unit GoliacLocal" where
  "local_svc =
     (let repo = \<lparr>Spec_IsPublic = False, Archived = False, Spec_Readers = [], Spec_Writers = [],
                  Spec_ExternalUserReaders = [], Spec_ExternalUserWriters = [], Owner = None\<rparr>
      in \<lparr>Users = [], ExternalUsers = [], Teams = [],
          Repositories = [(''svc-a'', repo), (''my-svc-x'', repo), (''other'', repo)],
          RuleSets = [(''required-checks'',
                       \<lparr>rs_Name = ''required-checks'', Spec_Enforcement = ''active'',
                        Spec_BypassApps = [], Spec_On_Include = [], Spec_On_Exclude = [],
                        Spec_Rules = []\<rparr>)]\<rparr>)"

definition svc_config :: "RulesetConfig list" where
  "svc_config = [\<lparr>Pattern = ''svc-'', Ruleset = ''required-checks''\<rparr>]"

definition svc_ruleset :: "unit GithubRuleSet" where
  "svc_ruleset =
     \<lparr>grs_Name = ''required-checks'', Id = 0, Enforcement = ''active'', BypassApps = [],
      OnInclude = [], OnExclude = [], Rules = [], grs_Repositories = [''svc-a'', ''my-svc-x'']\<rparr>"

section \<open>Lemmas\<close>

lemmas mediator_defs = AddUserToOrg_def RemoveUserFromOrg_def CreateTeam_def UpdateTeamAddMember_def
  UpdateTeamRemoveMember_def DeleteTeam_def CreateRepository_def UpdateRepositoryAddTeamAccess_def
  UpdateRepositoryUpdateTeamAccess_def UpdateRepositoryRemoveTeamAccess_def DeleteRepository_def
  UpdateRepositoryUpdatePrivate_def UpdateRepositoryUpdateArchived_def AddRuleset_def UpdateRuleset_def
  DeleteRuleset_def UpdateRepositorySetExternalUser_def UpdateRepositoryRemoveExternalUser_def
  Begin_def Rollback_def Commit_def

lemmas pass_defs = reconciliateUsers_def reconciliateTeams_def reconciliateRepositories_def
  reconciliateRulesets_def Reconciliate_def CompareEntities_def copy_map_def slugTeams_of_def
  rRepos_of_def lRepos_of_def NewMutableGoliacRemoteImpl_def start_def on_mirror_def forward_def

lemmas input_defs = plain_reconciliator_def no_destructive_def local_alice_def local_nothing_def
  live_nothing_def plain_externals_def empty_mirror_def bad_pattern_reconciliator_def
  live_enterprise_def live_ghost_def

lemma appended_refl: "appended Q st st"
  by (simp add: appended_def)

lemma appended_trans: "appended Q st st' \<Longrightarrow> appended Q st' st'' \<Longrightarrow> appended Q st st''"
  by (auto simp: appended_def)

lemma appended_on_mirror: "appended Q st0 st \<Longrightarrow> appended Q st0 (on_mirror c st)"
  by (auto simp: appended_def on_mirror_def)

lemma appended_forward:
  "(executor r \<Longrightarrow> Q (d, c)) \<Longrightarrow> appended Q st0 st \<Longrightarrow> appended Q st0 (forward r d c st)"
  by (auto simp: appended_def forward_def)

lemma fold_inv: "(\<And>x s. P s \<Longrightarrow> P (f x s)) \<Longrightarrow> P s \<Longrightarrow> P (fold f xs s)"
  by (induction xs arbitrary: s) auto

lemma fold_pair_inv:
  "(\<And>x a s. P s \<Longrightarrow> P (snd (f x (a, s)))) \<Longrightarrow> P s \<Longrightarrow> P (snd (fold f xs (a, s)))"
proof (induction xs arbitrary: a s)
  case Nil
  then show ?case by simp
next
  case (Cons x xs)
  obtain a' s' where step: "f x (a, s) = (a', s')" by (cases "f x (a, s)")
  have "P s'" using Cons.prems(1) [OF Cons.prems(2), of x a] step by simp
  then show ?case using Cons.IH [OF Cons.prems(1)] step by simp
qed

lemma CompareEntities_inv:
  assumes "\<And>k v s. P s \<Longrightarrow> P (onAdded k v s)"
    and "\<And>k v s. P s \<Longrightarrow> P (onRemoved k v s)"
    and "\<And>k l v s. P s \<Longrightarrow> P (onChanged k l v s)"
    and "P s"
  shows "P (CompareEntities lmap rmap equal onAdded onRemoved onChanged s)"
  unfolding CompareEntities_def
proof (rule fold_inv)
  fix x s assume "P s"
  then show "P ((case x of (k, rv) \<Rightarrow> \<lambda>s. case map_of lmap k of None \<Rightarrow> onRemoved k rv s | Some lv \<Rightarrow> s) s)"
    by (cases x) (simp add: assms split: option.splits)
next
  show "P (fold (\<lambda>(k, lv) s. case map_of rmap k of None \<Rightarrow> onAdded k lv s
              | Some rv \<Rightarrow> if equal lv rv then s else onChanged k lv rv s) lmap s)"
  proof (rule fold_inv)
    fix x s assume "P s"
    then show "P ((case x of (k, lv) \<Rightarrow> \<lambda>s. case map_of rmap k of None \<Rightarrow> onAdded k lv s
              | Some rv \<Rightarrow> if equal lv rv then s else onChanged k lv rv s) s)"
      by (cases x) (simp add: assms split: option.splits)
  qed (rule assms)
qed

lemma appended_fold:
  "(\<And>x s. appended Q st0 s \<Longrightarrow> appended Q st0 (f x s)) \<Longrightarrow> appended Q st0 s
    \<Longrightarrow> appended Q st0 (fold f xs s)"
  by (rule fold_inv)

lemma appended_fold_pair:
  "(\<And>x a s. appended Q st0 s \<Longrightarrow> appended Q st0 (snd (f x (a, s)))) \<Longrightarrow> appended Q st0 s
    \<Longrightarrow> appended Q st0 (snd (fold f xs (a, s)))"
  by (rule fold_pair_inv)

lemma appended_CompareEntities:
  assumes "\<And>k v s. appended Q st0 s \<Longrightarrow> appended Q st0 (onAdded k v s)"
    and "\<And>k v s. appended Q st0 s \<Longrightarrow> appended Q st0 (onRemoved k v s)"
    and "\<And>k l v s. appended Q st0 s \<Longrightarrow> appended Q st0 (onChanged k l v s)"
    and "appended Q st0 s"
  shows "appended Q st0 (CompareEntities lmap rmap equal onAdded onRemoved onChanged s)"
  using assms by (rule CompareEntities_inv)

lemma appended_mediator:
  "appended (pass_call r d) st0 st \<Longrightarrow> appended (pass_call r d) st0 (AddUserToOrg r d u st)"
  "appended (pass_call r d) st0 st \<Longrightarrow> appended (pass_call r d) st0 (RemoveUserFromOrg r d u st)"
  "appended (pass_call r d) st0 st \<Longrightarrow> appended (pass_call r d) st0 (CreateTeam r d t ds ms st)"
  "appended (pass_call r d) st0 st \<Longrightarrow> appended (pass_call r d) st0 (UpdateTeamAddMember r d t u ro st)"
  "appended (pass_call r d) st0 st \<Longrightarrow> appended (pass_call r d) st0 (UpdateTeamRemoveMember r d t u st)"
  "appended (pass_call r d) st0 st \<Longrightarrow> appended (pass_call r d) st0 (DeleteTeam r d t st)"
  "appended (pass_call r d) st0 st \<Longrightarrow> appended (pass_call r d) st0 (CreateRepository r d n ds ws rs pub st)"
  "appended (pass_call r d) st0 st \<Longrightarrow> appended (pass_call r d) st0 (UpdateRepositoryAddTeamAccess r d n t pm st)"
  "appended (pass_call r d) st0 st \<Longrightarrow> appended (pass_call r d) st0 (UpdateRepositoryUpdateTeamAccess r d n t pm st)"
  "appended (pass_call r d) st0 st \<Longrightarrow> appended (pass_call r d) st0 (UpdateRepositoryRemoveTeamAccess r d n t st)"
  "appended (pass_call r d) st0 st \<Longrightarrow> appended (pass_call r d) st0 (DeleteRepository r d n st)"
  "appended (pass_call r d) st0 st \<Longrightarrow> appended (pass_call r d) st0 (UpdateRepositoryUpdatePrivate r d n b st)"
  "appended (pass_call r d) st0 st \<Longrightarrow> appended (pass_call r d) st0 (UpdateRepositoryUpdateArchived r d n b st)"
  "appended (pass_call r d) st0 st \<Longrightarrow> appended (pass_call r d) st0 (AddRuleset r d g st)"
  "appended (pass_call r d) st0 st \<Longrightarrow> appended (pass_call r d) st0 (UpdateRuleset r d g st)"
  "appended (pass_call r d) st0 st \<Longrightarrow> appended (pass_call r d) st0 (DeleteRuleset r d i st)"
  "appended (pass_call r d) st0 st \<Longrightarrow> appended (pass_call r d) st0 (UpdateRepositorySetExternalUser r d n u pm st)"
  "appended (pass_call r d) st0 st \<Longrightarrow> appended (pass_call r d) st0 (UpdateRepositoryRemoveExternalUser r d n u st)"
  by (simp_all add: mediator_defs Let_def appended_on_mirror appended_forward pass_call_def)

lemma reconciliateUsers_appended:
  "appended (pass_call r d) st (snd (reconciliateUsers r local d st))"
  unfolding reconciliateUsers_def Let_def
  apply (simp add: split_beta)
  apply (rule appended_fold)
   apply (simp add: split_beta appended_mediator)
  apply (rule appended_fold_pair)
   apply (auto simp: appended_mediator appended_refl split: option.splits)
  done


lemma teams_onChanged_appended:
  "appended (pass_call r d) st0 st \<Longrightarrow> appended (pass_call r d) st0 (teams_onChanged r local d k l v st)"
  unfolding teams_onChanged_def Let_def
  apply (simp add: split_beta)
  apply (rule appended_fold)
   apply (simp add: split_beta appended_mediator)
  apply (rule appended_fold_pair)
   apply (auto simp: appended_mediator split: option.splits)
  done

lemma reconciliateTeams_appended:
  "appended (pass_call r d) st (snd (reconciliateTeams ext r local d st))"
  unfolding reconciliateTeams_def Let_def
  apply simp
  apply (rule appended_CompareEntities)
  apply (simp_all add: teams_onAdded_def teams_onRemoved_def teams_onChanged_appended appended_mediator appended_refl)
  done

lemma team_access_onChanged_appended:
  "appended (pass_call r d) st0 st \<Longrightarrow> appended (pass_call r d) st0 (team_access_onChanged r d n pm l v st)"
  unfolding team_access_onChanged_def Let_def
  by (auto simp: split_beta appended_mediator intro!: appended_fold)

lemma external_users_onChanged_appended:
  "appended (pass_call r d) st0 st \<Longrightarrow> appended (pass_call r d) st0 (external_users_onChanged r d n l v st)"
  unfolding external_users_onChanged_def Let_def
  by (auto simp: split_beta appended_mediator intro!: appended_fold)

lemma repos_onChanged_appended:
  "appended (pass_call r d) st0 st \<Longrightarrow> appended (pass_call r d) st0 (repos_onChanged r d n l v st)"
  unfolding repos_onChanged_def Let_def
  by (auto simp: appended_mediator intro!: external_users_onChanged_appended team_access_onChanged_appended)

lemma reconciliateRepositories_appended:
  "appended (pass_call r d) st (snd (reconciliateRepositories ext r local t d st))"
  unfolding reconciliateRepositories_def Let_def
  apply simp
  apply (rule appended_CompareEntities)
  apply (simp_all add: repos_onAdded_def repos_onRemoved_def repos_onChanged_appended appended_mediator appended_refl)
  done

lemma reconciliateRulesets_appended:
  "appended (pass_call r d) st (snd (reconciliateRulesets ext r local conf d st))"
proof (cases "lgrs_of ext local (Rulesets conf) []")
  case (Inl err)
  then show ?thesis by (simp add: reconciliateRulesets_def appended_refl)
next
  case (Inr lgrs)
  have "appended (pass_call r d) st
     (CompareEntities lgrs (rulesets (remote st)) (compareRulesets ext)
        (rulesets_onAdded r d) (rulesets_onRemoved r d) (rulesets_onChanged r d) st)"
    by (rule appended_CompareEntities)
      (simp_all add: rulesets_onAdded_def rulesets_onRemoved_def rulesets_onChanged_def
        appended_mediator appended_refl)
  then show ?thesis using Inr by (simp add: reconciliateRulesets_def)
qed


subsection \<open>The flag does not steer the run\<close>

lemma same_on_mirror: "same_but_flag st st' \<Longrightarrow> same_but_flag (on_mirror c st) (on_mirror c st')"
  by (simp add: same_but_flag_def on_mirror_def)

lemma same_forward: "same_but_flag st st' \<Longrightarrow> same_but_flag (forward r d c st) (forward r d' c st')"
  by (simp add: same_but_flag_def forward_def)

lemma same_mediator:
  "same_but_flag st st' \<Longrightarrow> same_but_flag (AddUserToOrg r d u st) (AddUserToOrg r d' u st')"
  "same_but_flag st st' \<Longrightarrow> same_but_flag (RemoveUserFromOrg r d u st) (RemoveUserFromOrg r d' u st')"
  "same_but_flag st st' \<Longrightarrow> same_but_flag (CreateTeam r d t ds ms st) (CreateTeam r d' t ds ms st')"
  "same_but_flag st st' \<Longrightarrow> same_but_flag (UpdateTeamAddMember r d t u ro st) (UpdateTeamAddMember r d' t u ro st')"
  "same_but_flag st st' \<Longrightarrow> same_but_flag (UpdateTeamRemoveMember r d t u st) (UpdateTeamRemoveMember r d' t u st')"
  "same_but_flag st st' \<Longrightarrow> same_but_flag (DeleteTeam r d t st) (DeleteTeam r d' t st')"
  "same_but_flag st st' \<Longrightarrow> same_but_flag (CreateRepository r d n ds ws rs pub st) (CreateRepository r d' n ds ws rs pub st')"
  "same_but_flag st st' \<Longrightarrow> same_but_flag (UpdateRepositoryAddTeamAccess r d n t pm st) (UpdateRepositoryAddTeamAccess r d' n t pm st')"
  "same_but_flag st st' \<Longrightarrow> same_but_flag (UpdateRepositoryUpdateTeamAccess r d n t pm st) (UpdateRepositoryUpdateTeamAccess r d' n t pm st')"
  "same_but_flag st st' \<Longrightarrow> same_but_flag (UpdateRepositoryRemoveTeamAccess r d n t st) (UpdateRepositoryRemoveTeamAccess r d' n t st')"
  "same_but_flag st st' \<Longrightarrow> same_but_flag (DeleteRepository r d n st) (DeleteRepository r d' n st')"
  "same_but_flag st st' \<Longrightarrow> same_but_flag (UpdateRepositoryUpdatePrivate r d n b st) (UpdateRepositoryUpdatePrivate r d' n b st')"
  "same_but_flag st st' \<Longrightarrow> same_but_flag (UpdateRepositoryUpdateArchived r d n b st) (UpdateRepositoryUpdateArchived r d' n b st')"
  "same_but_flag st st' \<Longrightarrow> same_but_flag (AddRuleset r d g st) (AddRuleset r d' g st')"
  "same_but_flag st st' \<Longrightarrow> same_but_flag (UpdateRuleset r d g st) (UpdateRuleset r d' g st')"
  "same_but_flag st st' \<Longrightarrow> same_but_flag (DeleteRuleset r d i st) (DeleteRuleset r d' i st')"
  "same_but_flag st st' \<Longrightarrow> same_but_flag (UpdateRepositorySetExternalUser r d n u pm st) (UpdateRepositorySetExternalUser r d' n u pm st')"
  "same_but_flag st st' \<Longrightarrow> same_but_flag (UpdateRepositoryRemoveExternalUser r d n u st) (UpdateRepositoryRemoveExternalUser r d' n u st')"
  "same_but_flag st st' \<Longrightarrow> same_but_flag (Begin r d st) (Begin r d' st')"
  "same_but_flag st st' \<Longrightarrow> same_but_flag (Rollback r d err st) (Rollback r d' err st')"
  "same_but_flag st st' \<Longrightarrow> same_but_flag (Commit r d st) (Commit r d' st')"
  by (simp_all add: mediator_defs Let_def same_on_mirror same_forward)

lemma same_fold:
  "(\<And>x s s'. same_but_flag s s' \<Longrightarrow> same_but_flag (f x s) (g x s')) \<Longrightarrow> same_but_flag s s'
    \<Longrightarrow> same_but_flag (fold f xs s) (fold g xs s')"
  by (induction xs arbitrary: s s') auto

lemma same_fold_pair:
  assumes "\<And>x a s s'. same_but_flag s s' \<Longrightarrow>
      fst (f x (a, s)) = fst (g x (a, s')) \<and> same_but_flag (snd (f x (a, s))) (snd (g x (a, s')))"
    and "same_but_flag s s'"
  shows "fst (fold f xs (a, s)) = fst (fold g xs (a, s')) \<and>
         same_but_flag (snd (fold f xs (a, s))) (snd (fold g xs (a, s')))"
  using assms(2)
proof (induction xs arbitrary: a s s')
  case Nil
  then show ?case by simp
next
  case (Cons x xs)
  obtain a1 s1 where f: "f x (a, s) = (a1, s1)" by (cases "f x (a, s)")
  obtain a2 s2 where g: "g x (a, s') = (a2, s2)" by (cases "g x (a, s')")
  from assms(1) [OF Cons.prems, of x a] f g have "a1 = a2" "same_but_flag s1 s2" by simp_all
  with Cons.IH [of s1 s2 a1] f g show ?case by simp
qed

lemma same_CompareEntities:
  assumes "\<And>k v s s'. same_but_flag s s' \<Longrightarrow> same_but_flag (onA k v s) (onA' k v s')"
    and "\<And>k v s s'. same_but_flag s s' \<Longrightarrow> same_but_flag (onR k v s) (onR' k v s')"
    and "\<And>k l v s s'. same_but_flag s s' \<Longrightarrow> same_but_flag (onC k l v s) (onC' k l v s')"
    and "same_but_flag s s'"
  shows "same_but_flag (CompareEntities lmap rmap equal onA onR onC s)
           (CompareEntities lmap rmap equal onA' onR' onC' s')"
  unfolding CompareEntities_def
  apply (rule same_fold)
   apply (simp add: split_beta assms split: option.splits)
  apply (rule same_fold)
   apply (simp add: split_beta assms split: option.splits)
  apply (rule assms)
  done

lemma same_remote: "same_but_flag st st' \<Longrightarrow> remote st' = remote st"
  by (simp add: same_but_flag_def)

lemma reconciliateUsers_same:
  assumes "same_but_flag st st'"
  shows "same_but_flag (snd (reconciliateUsers r local d st)) (snd (reconciliateUsers r local d' st'))"
proof -
  let ?f = "\<lambda>d. (\<lambda>(_, lUser) (rUsers, st).
                    case map_of rUsers (Spec_GithubID lUser) of
                      None \<Rightarrow> (rUsers, AddUserToOrg r d [] st)
                    | Some user \<Rightarrow> (AList.delete user rUsers, st))"
  let ?a = "fold (\<lambda>u m. AList.update u u m) (users (remote st)) []"
  have step: "fst (fold (?f d) (Users local) (?a, st)) = fst (fold (?f d') (Users local) (?a, st')) \<and>
      same_but_flag (snd (fold (?f d) (Users local) (?a, st))) (snd (fold (?f d') (Users local) (?a, st')))"
    by (rule same_fold_pair) (auto simp: same_mediator split: option.splits prod.splits intro: assms)
  show ?thesis
    unfolding reconciliateUsers_def Let_def
    apply (simp add: split_beta same_remote [OF assms])
    apply (simp add: conjunct1 [OF step])
    apply (rule same_fold)
     apply (simp add: split_beta same_mediator)
    apply (rule conjunct2 [OF step])
    done
qed


lemma teams_onChanged_same:
  assumes "same_but_flag st st'"
  shows "same_but_flag (teams_onChanged r local d k l v st) (teams_onChanged r local d' k l v st')"
proof -
  let ?f = "\<lambda>d. (\<lambda>m (lm, st).
                    case map_of lm m of
                      None \<Rightarrow> (lm, UpdateTeamRemoveMember r d k m st)
                    | Some _ \<Rightarrow> (AList.delete m lm, st))"
  let ?a = "fold (\<lambda>ghuserid lm. AList.update ghuserid True lm)
              (known_ids (Users local) (Members l)) []"
  have step: "fst (fold (?f d) (Members v) (?a, st)) = fst (fold (?f d') (Members v) (?a, st')) \<and>
      same_but_flag (snd (fold (?f d) (Members v) (?a, st))) (snd (fold (?f d') (Members v) (?a, st')))"
    by (rule same_fold_pair) (auto simp: same_mediator split: option.splits prod.splits intro: assms)
  show ?thesis
    unfolding teams_onChanged_def Let_def
    apply (simp add: split_beta)
    apply (simp add: conjunct1 [OF step])
    apply (rule same_fold)
     apply (simp add: split_beta same_mediator)
    apply (rule conjunct2 [OF step])
    done
qed

lemma reconciliateTeams_same:
  assumes "same_but_flag st st'"
  shows "same_but_flag (snd (reconciliateTeams ext r local d st)) (snd (reconciliateTeams ext r local d' st'))"
  unfolding reconciliateTeams_def Let_def
  apply (simp add: same_remote [OF assms])
  apply (rule same_CompareEntities)
     apply (simp_all add: teams_onAdded_def teams_onRemoved_def teams_onChanged_same same_mediator assms)
  done

lemma team_access_onChanged_same:
  "same_but_flag st st' \<Longrightarrow>
   same_but_flag (team_access_onChanged r d n pm l v st) (team_access_onChanged r d' n pm l v st')"
  unfolding team_access_onChanged_def Let_def
  by (auto simp: split_beta same_mediator intro!: same_fold)

lemma external_users_onChanged_same:
  "same_but_flag st st' \<Longrightarrow>
   same_but_flag (external_users_onChanged r d n l v st) (external_users_onChanged r d' n l v st')"
  unfolding external_users_onChanged_def Let_def
  by (auto simp: split_beta same_mediator intro!: same_fold)

lemma repos_onChanged_same:
  "same_but_flag st st' \<Longrightarrow>
   same_but_flag (repos_onChanged r d n l v st) (repos_onChanged r d' n l v st')"
  unfolding repos_onChanged_def Let_def
  by (auto simp: same_mediator intro!: external_users_onChanged_same team_access_onChanged_same)

lemma reconciliateRepositories_same:
  assumes "same_but_flag st st'"
  shows "same_but_flag (snd (reconciliateRepositories ext r local t d st))
           (snd (reconciliateRepositories ext r local t d' st'))"
  unfolding reconciliateRepositories_def Let_def
  apply (simp add: same_remote [OF assms])
  apply (rule same_CompareEntities)
     apply (simp_all add: repos_onAdded_def repos_onRemoved_def repos_onChanged_same same_mediator assms)
  done

lemma reconciliateRulesets_same:
  assumes "same_but_flag st st'"
  shows "same_but_flag (snd (reconciliateRulesets ext r local conf d st))
           (snd (reconciliateRulesets ext r local conf d' st'))"
proof (cases "lgrs_of ext local (Rulesets conf) []")
  case (Inl err)
  then show ?thesis by (simp add: reconciliateRulesets_def assms)
next
  case (Inr lgrs)
  have "same_but_flag
     (CompareEntities lgrs (rulesets (remote st)) (compareRulesets ext)
        (rulesets_onAdded r d) (rulesets_onRemoved r d) (rulesets_onChanged r d) st)
     (CompareEntities lgrs (rulesets (remote st)) (compareRulesets ext)
        (rulesets_onAdded r d') (rulesets_onRemoved r d') (rulesets_onChanged r d') st')"
    by (rule same_CompareEntities)
      (simp_all add: rulesets_onAdded_def rulesets_onRemoved_def rulesets_onChanged_def
        same_mediator assms)
  then show ?thesis using Inr by (simp add: reconciliateRulesets_def same_remote [OF assms])
qed

subsection \<open>What the passes return\<close>

lemma reconciliateUsers_nil: "fst (reconciliateUsers r local d st) = None"
  by (simp add: reconciliateUsers_def Let_def split_beta)

lemma reconciliateTeams_nil: "fst (reconciliateTeams ext r local d st) = None"
  by (simp add: reconciliateTeams_def Let_def)

lemma reconciliateRepositories_nil: "fst (reconciliateRepositories ext r local t d st) = None"
  by (simp add: reconciliateRepositories_def Let_def)

lemma reconciliateRulesets_result:
  "fst (reconciliateRulesets ext r local conf d st) =
     (case lgrs_of ext local (Rulesets conf) [] of Inl err \<Rightarrow> Some err | Inr lgrs \<Rightarrow> None)"
  by (simp add: reconciliateRulesets_def Let_def split: sum.splits)

lemma reconciliateRulesets_error_state:
  "fst (reconciliateRulesets ext r local conf d st) = Some err \<Longrightarrow>
   snd (reconciliateRulesets ext r local conf d st) = st"
  by (simp add: reconciliateRulesets_def Let_def split: sum.splits)

lemma lgrs_of_error:
  "(\<exists>err. lgrs_of ext local confs lgrs = Inl err) \<longleftrightarrow>
   (\<exists>confrs \<in> set confs. regexp_Compile ext (Pattern confrs) \<noteq> None \<or>
       map_of (RuleSets local) (Ruleset confrs) = None)"
  by (induction confs arbitrary: lgrs) (auto split: option.splits)

text \<open>\<open>Reconciliate\<close> with the three passes that cannot fail run in sequence.\<close>

lemma Reconciliate_unfold:
  "Reconciliate ext r local g t d =
     (let st0 = Begin r d (start (NewMutableGoliacRemoteImpl g));
          st1 = snd (reconciliateUsers r local d st0);
          st2 = snd (reconciliateTeams ext r local d st1);
          st3 = snd (reconciliateRepositories ext r local t d st2)
      in if IsEnterprise g
         then (case fst (reconciliateRulesets ext r local (repoconfig r) d st3) of
                 Some err \<Rightarrow> (Some err, Rollback r d err (snd (reconciliateRulesets ext r local (repoconfig r) d st3)))
               | None \<Rightarrow> (None, Commit r d (snd (reconciliateRulesets ext r local (repoconfig r) d st3))))
         else (None, Commit r d st3))"
  by (simp add: Reconciliate_def Let_def split_beta reconciliateUsers_nil reconciliateTeams_nil
      reconciliateRepositories_nil split: option.splits)


lemma appended_Begin_start:
  "executor r \<Longrightarrow> executor_calls (Begin r d (start m)) = [(d, OpBegin)]"
  by (simp add: Begin_def forward_def start_def)

lemma appended_calls:
  "appended Q st st' \<Longrightarrow> \<exists>new. executor_calls st' = executor_calls st @ new \<and> list_all Q new"
  by (simp add: appended_def)

lemma passes_appended:
  "appended (pass_call r d) st
     (snd (reconciliateRepositories ext r local t d
        (snd (reconciliateTeams ext r local d (snd (reconciliateUsers r local d st))))))"
  by (blast intro: appended_trans reconciliateUsers_appended reconciliateTeams_appended
      reconciliateRepositories_appended)

lemma all_passes_appended:
  "appended (pass_call r d) st
     (snd (reconciliateRulesets ext r local conf d
       (snd (reconciliateRepositories ext r local t d
          (snd (reconciliateTeams ext r local d (snd (reconciliateUsers r local d st))))))))"
  by (blast intro: appended_trans passes_appended reconciliateRulesets_appended)

lemma Reconciliate_result:
  "fst (Reconciliate ext r local g t d) =
     (if IsEnterprise g
      then (case lgrs_of ext local (Rulesets (repoconfig r)) [] of
              Inl err \<Rightarrow> Some err | Inr lgrs \<Rightarrow> None)
      else None)"
  by (simp add: Reconciliate_unfold Let_def reconciliateRulesets_result split: sum.splits)

lemma Reconciliate_executor_calls:
  assumes "executor r"
  shows "\<exists>calls. list_all (pass_call r d) calls \<and>
           executor_calls (snd (Reconciliate ext r local g t d)) =
             (d, OpBegin) # calls @
               [(d, case fst (Reconciliate ext r local g t d) of
                      None \<Rightarrow> OpCommit | Some err \<Rightarrow> OpRollback err)]"
proof -
  let ?st0 = "Begin r d (start (NewMutableGoliacRemoteImpl g))"
  let ?st3 = "snd (reconciliateRepositories ext r local t d
        (snd (reconciliateTeams ext r local d (snd (reconciliateUsers r local d ?st0)))))"
  let ?st4 = "snd (reconciliateRulesets ext r local (repoconfig r) d ?st3)"
  have b: "executor_calls ?st0 = [(d, OpBegin)]"
    using assms by (rule appended_Begin_start)
  from appended_calls [OF passes_appended [of r d ?st0 ext local t]] b
  obtain c3 where c3: "executor_calls ?st3 = (d, OpBegin) # c3" "list_all (pass_call r d) c3"
    by auto
  from appended_calls [OF all_passes_appended [of r d ?st0 ext local "repoconfig r" t]] b
  obtain c4 where c4: "executor_calls ?st4 = (d, OpBegin) # c4" "list_all (pass_call r d) c4"
    by auto
  show ?thesis
  proof (cases "IsEnterprise g")
    case False
    then show ?thesis using c3 assms
      by (simp add: Reconciliate_unfold Let_def Commit_def forward_def)
  next
    case True
    then show ?thesis using c4 assms
      by (auto simp: Reconciliate_unfold Let_def Commit_def Rollback_def forward_def
          split: option.splits)
  qed
qed

lemma Reconciliate_no_executor:
  assumes "\<not> executor r"
  shows "executor_calls (snd (Reconciliate ext r local g t d)) = []"
proof -
  let ?st0 = "Begin r d (start (NewMutableGoliacRemoteImpl g))"
  have b: "executor_calls ?st0 = []"
    using assms by (simp add: Begin_def forward_def start_def)
  have none: "\<And>new. list_all (pass_call r d) new \<Longrightarrow> new = []"
    using assms by (case_tac new) (simp_all add: pass_call_def)
  from appended_calls [OF passes_appended [of r d ?st0 ext local t]] b none
  have c3: "executor_calls (snd (reconciliateRepositories ext r local t d
        (snd (reconciliateTeams ext r local d (snd (reconciliateUsers r local d ?st0)))))) = []"
    by auto
  from appended_calls [OF all_passes_appended [of r d ?st0 ext local "repoconfig r" t]] b none
  have c4: "executor_calls (snd (reconciliateRulesets ext r local (repoconfig r) d
       (snd (reconciliateRepositories ext r local t d
        (snd (reconciliateTeams ext r local d (snd (reconciliateUsers r local d ?st0)))))))) = []"
    by auto
  show ?thesis
    using c3 c4 assms
    by (simp add: Reconciliate_unfold Let_def Commit_def Rollback_def forward_def
        split: option.splits)
qed

lemma Reconciliate_same:
  "same_but_flag (snd (Reconciliate ext r local g t d)) (snd (Reconciliate ext r local g t d'))"
proof -
  have 0: "same_but_flag (Begin r d (start (NewMutableGoliacRemoteImpl g)))
              (Begin r d' (start (NewMutableGoliacRemoteImpl g)))"
    by (intro same_mediator) (simp add: same_but_flag_def)
  note 1 = reconciliateUsers_same [OF 0, of r local]
  note 2 = reconciliateTeams_same [OF 1, of ext r local]
  note 3 = reconciliateRepositories_same [OF 2, of ext r local t]
  note 4 = reconciliateRulesets_same [OF 3, of ext r local "repoconfig r"]
  show ?thesis
    using 3 4
    by (simp add: Reconciliate_unfold Let_def reconciliateRulesets_result same_mediator
        split: sum.splits)
qed

lemma set_update_cases:
  "x \<in> set (AList.update k v al) \<Longrightarrow> x = (k, v) \<or> x \<in> set al"
  by (induction al) (auto split: if_splits)

lemma local_ruleset_repositories:
  "set (grs_Repositories (local_ruleset ext local pattern rs)) =
     {s \<in> slug_Make ext ` fst ` set (Repositories local). regexp_Match ext pattern s}"
  by (auto simp: local_ruleset_def)

lemma lgrs_of_entries:
  "lgrs_of ext local confs acc = Inr lgrs \<Longrightarrow> (name, grs) \<in> set lgrs \<Longrightarrow>
   (name, grs) \<in> set acc \<or>
   (\<exists>confrs \<in> set confs. \<exists>rs. map_of (RuleSets local) (Ruleset confrs) = Some rs \<and>
       regexp_Compile ext (Pattern confrs) = None \<and>
       name = rs_Name rs \<and> grs = local_ruleset ext local (Pattern confrs) rs)"
proof (induction confs arbitrary: acc)
  case Nil
  then show ?case by simp
next
  case (Cons confrs rest)
  from Cons.prems(1) obtain rs where
    c: "regexp_Compile ext (Pattern confrs) = None"
    and f: "map_of (RuleSets local) (Ruleset confrs) = Some rs"
    and rest: "lgrs_of ext local rest
        (AList.update (rs_Name rs) (local_ruleset ext local (Pattern confrs) rs) acc) = Inr lgrs"
    by (auto split: option.splits)
  from Cons.IH [OF rest Cons.prems(2)] show ?case
  proof
    assume "(name, grs) \<in> set (AList.update (rs_Name rs) (local_ruleset ext local (Pattern confrs) rs) acc)"
    from set_update_cases [OF this] c f show ?thesis by auto
  next
    assume "\<exists>confrs\<in>set rest. \<exists>rs. map_of (RuleSets local) (Ruleset confrs) = Some rs \<and>
       regexp_Compile ext (Pattern confrs) = None \<and>
       name = rs_Name rs \<and> grs = local_ruleset ext local (Pattern confrs) rs"
    then show ?thesis by auto
  qed
qed

lemma no_gated_call_forwarded:
  "\<forall>call \<in> set (executor_calls (snd (Reconciliate ext r local g teamsreponame dryrun))).
      \<not> gated r (snd call)"
proof (cases "executor r")
  case True
  from Reconciliate_executor_calls [OF True, of dryrun ext local g teamsreponame]
  show ?thesis by (force simp: list_all_iff pass_call_def split: option.splits)
next
  case False
  then show ?thesis by (simp add: Reconciliate_no_executor)
qed

section \<open>The claims\<close>

subsection \<open>The users pass\<close>

text \<open>
  Claim C1.  In the users pass, a declared user whose GithubID is absent from the live users
  should make the engine emit AddUserToOrg with that GithubID: declared
  \<open>{alice: ghAlice}\<close> against no live user should give \<open>AddUserToOrg(ghAlice)\<close> and
  leave the mirror's users as \<open>{ghAlice}\<close>.  The code, run on that very input, calls the
  mirror and the Executor with the empty string, and the mirror's users end as the empty
  string alone; \<open>ghAlice\<close> appears nowhere.
\<close>

theorem reconciliateUsers_new_user_gets_empty_id:
  "reconciliateUsers plain_reconciliator local_alice False (start empty_mirror) =
     (None, \<lparr>remote = empty_mirror\<lparr>users := [[]]\<rparr>,
             mirror_calls = [OpAddUserToOrg []],
             executor_calls = [(False, OpAddUserToOrg [])]\<rparr>)"
  by (simp add: reconciliateUsers_def plain_reconciliator_def local_alice_def start_def
      empty_mirror_def AddUserToOrg_def on_mirror_def forward_def)

text \<open>
  Claim C2.  Idempotence: after a first run whose forwarded calls a faithful Executor has
  applied to the live state, a second run with the same declared state should forward no
  mutation.  With \<open>{alice: ghAlice}\<close> declared and nothing live, the first run forwards
  \<open>AddUserToOrg\<close> of the empty string, the faithful Executor adds the empty string to
  the live users, and the second run forwards \<open>AddUserToOrg\<close> of the empty string again.
\<close>

theorem Reconciliate_second_run_adds_user_again:
  "faithful_executor
     (executor_calls (snd (Reconciliate plain_externals plain_reconciliator local_alice live_nothing [] False)))
     live_nothing = live_nothing\<lparr>remote_Users := [[]]\<rparr> \<and>
   executor_calls
     (snd (Reconciliate plain_externals plain_reconciliator local_alice
            (live_nothing\<lparr>remote_Users := [[]]\<rparr>) [] False))
     = [(False, OpBegin), (False, OpAddUserToOrg []), (False, OpCommit)]"
  by (simp add: pass_defs mediator_defs input_defs faithful_executor_def executor_apply_def)

subsection \<open>Policy gates\<close>

text \<open>
  Claim C3.  With the four destructive flags off, no RemoveUserFromOrg, DeleteTeam,
  DeleteRepository or DeleteRuleset should reach the Executor, and the mirror should keep
  the entity.  No such call reaches the Executor (lemma \<open>no_gated_call_forwarded\<close>), and
  \<open>DeleteTeam\<close> and \<open>DeleteRepository\<close> leave the mirror alone when gated; but
  \<open>RemoveUserFromOrg\<close> calls the mirror before it looks at the flag.  A live user
  \<open>ghost\<close> that is not declared is gone from the mirror after the run, and the Executor
  was not asked to remove it.
\<close>

theorem gated_RemoveUserFromOrg_still_updates_mirror:
  "Reconciliate plain_externals plain_reconciliator local_nothing live_ghost [] False =
     (None, \<lparr>remote = empty_mirror, mirror_calls = [OpRemoveUserFromOrg ''ghost''],
             executor_calls = [(False, OpBegin), (False, OpCommit)]\<rparr>)"
  by (simp add: pass_defs mediator_defs input_defs live_ghost_def)

subsection \<open>The transaction envelope\<close>

text \<open>
  Claim C4.  With an Executor attached, the calls it receives in one \<open>Reconciliate\<close> are
  \<open>Begin(dryrun)\<close> first and once, then the calls of the passes, none of which is a
  transaction call, then either \<open>Commit(dryrun)\<close> when the result is nil or
  \<open>Rollback(dryrun, err)\<close> when the result is the error \<open>err\<close>, never both.  The
  result is the result of the rulesets pass on an enterprise remote and nil otherwise, the
  rulesets pass being the last one and the only one that can fail.
\<close>

theorem Reconciliate_transaction_envelope:
  assumes "executor r"
  shows "fst (Reconciliate ext r local g teamsreponame dryrun) =
           (if IsEnterprise g
            then fst (reconciliateRulesets ext r local (repoconfig r) dryrun st)
            else None) \<and>
         (\<exists>calls. list_all (pass_call r dryrun) calls \<and>
            executor_calls (snd (Reconciliate ext r local g teamsreponame dryrun)) =
              (dryrun, OpBegin) # calls @
                [(dryrun, case fst (Reconciliate ext r local g teamsreponame dryrun) of
                            None \<Rightarrow> OpCommit | Some err \<Rightarrow> OpRollback err)])"
  using Reconciliate_executor_calls [OF assms, of dryrun ext local g teamsreponame]
  by (simp add: Reconciliate_result reconciliateRulesets_result)

theorem Reconciliate_transaction_envelope_witness:
  "executor bad_pattern_reconciliator \<and>
   fst (Reconciliate plain_externals bad_pattern_reconciliator local_alice live_enterprise [] False)
     = Some (NotAbleToParseRegexp ''['' ''missing closing ]'') \<and>
   executor_calls
     (snd (Reconciliate plain_externals bad_pattern_reconciliator local_alice live_enterprise [] False))
     = [(False, OpBegin), (False, OpAddUserToOrg []),
        (False, OpRollback (NotAbleToParseRegexp ''['' ''missing closing ]''))]"
proof -
  have h: "executor bad_pattern_reconciliator"
    by (simp add: bad_pattern_reconciliator_def)
  show ?thesis
    using h Reconciliate_transaction_envelope [OF h, of plain_externals local_alice live_enterprise
        "[]" False "start empty_mirror"]
    by (simp add: pass_defs mediator_defs input_defs)
qed

text \<open>
  Claim C5.  The rulesets pass returns an error exactly when some configured (pattern,
  ruleset) entry has a pattern that does not compile or names a ruleset that is not
  declared; it then leaves the state as it found it, so no operation was issued, and
  \<open>Reconciliate\<close> on an enterprise remote returns that error and ends with
  \<open>Rollback(dryrun, err)\<close>, without \<open>Commit\<close>.
\<close>

theorem reconciliateRulesets_configuration_error:
  "(fst (reconciliateRulesets ext r local conf dryrun st) \<noteq> None \<longleftrightarrow>
      (\<exists>confrs \<in> set (Rulesets conf).
          regexp_Compile ext (Pattern confrs) \<noteq> None \<or>
          map_of (RuleSets local) (Ruleset confrs) = None)) \<and>
   (fst (reconciliateRulesets ext r local conf dryrun st) \<noteq> None \<longrightarrow>
      snd (reconciliateRulesets ext r local conf dryrun st) = st) \<and>
   (IsEnterprise g \<and> executor r \<and>
    fst (reconciliateRulesets ext r local (repoconfig r) dryrun st) = Some err \<longrightarrow>
      fst (Reconciliate ext r local g teamsreponame dryrun) = Some err \<and>
      last (executor_calls (snd (Reconciliate ext r local g teamsreponame dryrun))) =
        (dryrun, OpRollback err) \<and>
      (dryrun, OpCommit) \<notin> set (executor_calls (snd (Reconciliate ext r local g teamsreponame dryrun))))"
proof (intro conjI impI)
  have "fst (reconciliateRulesets ext r local conf dryrun st) \<noteq> None \<longleftrightarrow>
      (\<exists>err. lgrs_of ext local (Rulesets conf) [] = Inl err)"
    by (simp add: reconciliateRulesets_result split: sum.splits)
  then show "fst (reconciliateRulesets ext r local conf dryrun st) \<noteq> None \<longleftrightarrow>
      (\<exists>confrs \<in> set (Rulesets conf).
          regexp_Compile ext (Pattern confrs) \<noteq> None \<or>
          map_of (RuleSets local) (Ruleset confrs) = None)"
    by (simp only: lgrs_of_error)
next
  assume "fst (reconciliateRulesets ext r local conf dryrun st) \<noteq> None"
  then show "snd (reconciliateRulesets ext r local conf dryrun st) = st"
    by (auto dest: reconciliateRulesets_error_state)
next
  assume a: "IsEnterprise g \<and> executor r \<and>
    fst (reconciliateRulesets ext r local (repoconfig r) dryrun st) = Some err"
  then show res: "fst (Reconciliate ext r local g teamsreponame dryrun) = Some err"
    by (simp add: Reconciliate_result reconciliateRulesets_result)
  from a Reconciliate_executor_calls [of r dryrun ext local g teamsreponame] res
  obtain calls where c: "list_all (pass_call r dryrun) calls"
    "executor_calls (snd (Reconciliate ext r local g teamsreponame dryrun)) =
       (dryrun, OpBegin) # calls @ [(dryrun, OpRollback err)]"
    by auto
  show "last (executor_calls (snd (Reconciliate ext r local g teamsreponame dryrun))) =
        (dryrun, OpRollback err)"
    by (simp add: c(2))
  show "(dryrun, OpCommit) \<notin> set (executor_calls (snd (Reconciliate ext r local g teamsreponame dryrun)))"
    using c by (auto simp: list_all_iff pass_call_def)
qed

theorem reconciliateRulesets_configuration_error_witness:
  "IsEnterprise live_enterprise \<and> executor bad_pattern_reconciliator \<and>
   regexp_Compile plain_externals ''['' \<noteq> None \<and>
   reconciliateRulesets plain_externals bad_pattern_reconciliator local_alice
      (repoconfig bad_pattern_reconciliator) False (start empty_mirror)
     = (Some (NotAbleToParseRegexp ''['' ''missing closing ]''), start empty_mirror) \<and>
   last (executor_calls
     (snd (Reconciliate plain_externals bad_pattern_reconciliator local_alice live_enterprise [] False)))
     = (False, OpRollback (NotAbleToParseRegexp ''['' ''missing closing ]''))"
  using reconciliateRulesets_configuration_error [of plain_externals bad_pattern_reconciliator
      local_alice "repoconfig bad_pattern_reconciliator" False "start empty_mirror"
      live_enterprise "NotAbleToParseRegexp ''['' ''missing closing ]''" "[]"]
  by (simp add: pass_defs mediator_defs input_defs)

text \<open>
  Claim C9.  The users, teams and repositories passes always return nil; so a run on a
  remote that is not enterprise returns nil and ends with \<open>Commit\<close>, and a
  \<open>Rollback\<close> among the Executor's calls means the remote is enterprise and the
  rulesets pass returned that error.
\<close>

theorem only_rulesets_pass_fails:
  "fst (reconciliateUsers r local dryrun st) = None \<and>
   fst (reconciliateTeams ext r local dryrun st) = None \<and>
   fst (reconciliateRepositories ext r local teamsreponame dryrun st) = None \<and>
   (\<not> IsEnterprise g \<longrightarrow>
      fst (Reconciliate ext r local g teamsreponame dryrun) = None \<and>
      (executor r \<longrightarrow>
         last (executor_calls (snd (Reconciliate ext r local g teamsreponame dryrun))) =
           (dryrun, OpCommit))) \<and>
   ((flag, OpRollback err) \<in> set (executor_calls (snd (Reconciliate ext r local g teamsreponame dryrun)))
      \<longrightarrow> IsEnterprise g \<and>
           fst (reconciliateRulesets ext r local (repoconfig r) dryrun st) = Some err)"
proof (intro conjI impI)
  assume ne: "\<not> IsEnterprise g"
  then show res: "fst (Reconciliate ext r local g teamsreponame dryrun) = None"
    by (simp add: Reconciliate_result)
  assume "executor r"
  from Reconciliate_executor_calls [OF this, of dryrun ext local g teamsreponame] res
  show "last (executor_calls (snd (Reconciliate ext r local g teamsreponame dryrun))) =
           (dryrun, OpCommit)"
    by auto
next
  assume rb: "(flag, OpRollback err) \<in>
     set (executor_calls (snd (Reconciliate ext r local g teamsreponame dryrun)))"
  have ex: "executor r"
  proof (rule ccontr)
    assume "\<not> executor r"
    from Reconciliate_no_executor [OF this, of ext local g teamsreponame dryrun] rb
    show False by simp
  qed
  have no_rb: "\<And>calls. list_all (pass_call r dryrun) calls \<Longrightarrow> (flag, OpRollback err) \<notin> set calls"
    by (force simp: list_all_iff pass_call_def)
  from Reconciliate_executor_calls [OF ex, of dryrun ext local g teamsreponame]
  obtain calls where c: "list_all (pass_call r dryrun) calls"
    "executor_calls (snd (Reconciliate ext r local g teamsreponame dryrun)) =
       (dryrun, OpBegin) # calls @
          [(dryrun, case fst (Reconciliate ext r local g teamsreponame dryrun) of
                      None \<Rightarrow> OpCommit | Some err \<Rightarrow> OpRollback err)]"
    by blast
  from rb c(2) no_rb [OF c(1)]
  have "fst (Reconciliate ext r local g teamsreponame dryrun) = Some err"
    by (auto split: option.splits)
  then show "IsEnterprise g"
    and "fst (reconciliateRulesets ext r local (repoconfig r) dryrun st) = Some err"
    by (simp_all add: Reconciliate_result reconciliateRulesets_result split: if_splits)
qed (simp_all add: reconciliateUsers_nil reconciliateTeams_nil reconciliateRepositories_nil)


theorem only_rulesets_pass_fails_witness:
  "\<not> IsEnterprise live_nothing \<and> executor plain_reconciliator \<and>
   last (executor_calls (snd (Reconciliate plain_externals plain_reconciliator local_alice live_nothing [] False)))
     = (False, OpCommit) \<and>
   (False, OpRollback (NotAbleToParseRegexp ''['' ''missing closing ]'')) \<in>
     set (executor_calls
       (snd (Reconciliate plain_externals bad_pattern_reconciliator local_alice live_enterprise [] False))) \<and>
   IsEnterprise live_enterprise"
  using only_rulesets_pass_fails [of plain_reconciliator local_alice False "start empty_mirror"
      plain_externals "[]" live_nothing False "NotAbleToParseRegexp ''['' ''missing closing ]''"]
    only_rulesets_pass_fails [of bad_pattern_reconciliator local_alice False "start empty_mirror"
      plain_externals "[]" live_enterprise False "NotAbleToParseRegexp ''['' ''missing closing ]''"]
  by (simp add: pass_defs mediator_defs input_defs)

subsection \<open>Dry run\<close>

text \<open>
  Claim C7.  Every call the Executor receives carries the \<open>dryrun\<close> flag of the run; and
  the run with \<open>dryrun = true\<close> and the run with \<open>dryrun = false\<close> return the same
  result, make the same calls on the mirror in the same order, leave the same mirror, and
  forward the same calls, flag apart.
\<close>

theorem Reconciliate_dryrun_purity:
  "(\<forall>call \<in> set (executor_calls (snd (Reconciliate ext r local g teamsreponame dryrun))).
       fst call = dryrun) \<and>
   fst (Reconciliate ext r local g teamsreponame True) =
     fst (Reconciliate ext r local g teamsreponame False) \<and>
   remote (snd (Reconciliate ext r local g teamsreponame True)) =
     remote (snd (Reconciliate ext r local g teamsreponame False)) \<and>
   mirror_calls (snd (Reconciliate ext r local g teamsreponame True)) =
     mirror_calls (snd (Reconciliate ext r local g teamsreponame False)) \<and>
   map snd (executor_calls (snd (Reconciliate ext r local g teamsreponame True))) =
     map snd (executor_calls (snd (Reconciliate ext r local g teamsreponame False)))"
proof -
  have flags: "\<forall>call \<in> set (executor_calls (snd (Reconciliate ext r local g teamsreponame dryrun))).
       fst call = dryrun"
  proof (cases "executor r")
    case True
    from Reconciliate_executor_calls [OF True, of dryrun ext local g teamsreponame]
    show ?thesis by (auto simp: list_all_iff pass_call_def)
  next
    case False
    then show ?thesis by (simp add: Reconciliate_no_executor)
  qed
  from Reconciliate_same [of ext r local g teamsreponame True False] flags
  show ?thesis
    by (simp add: same_but_flag_def Reconciliate_result)
qed

theorem Reconciliate_dryrun_purity_witness:
  "executor_calls (snd (Reconciliate plain_externals plain_reconciliator local_alice live_nothing [] True))
     = [(True, OpBegin), (True, OpAddUserToOrg []), (True, OpCommit)] \<and>
   (True, OpAddUserToOrg []) \<in>
     set (executor_calls (snd (Reconciliate plain_externals plain_reconciliator local_alice live_nothing [] True))) \<and>
   fst (True, OpAddUserToOrg [] :: unit op) = True \<and>
   mirror_calls (snd (Reconciliate plain_externals plain_reconciliator local_alice live_nothing [] True))
     = mirror_calls (snd (Reconciliate plain_externals plain_reconciliator local_alice live_nothing [] False))"
  using Reconciliate_dryrun_purity [of plain_externals plain_reconciliator local_alice live_nothing "[]" True]
  by (simp add: pass_defs mediator_defs input_defs)

subsection \<open>Rulesets\<close>

text \<open>
  Claim C10.  Every comparable that the rulesets pass builds comes from a configured entry,
  and its repository list holds the slug of a declared repository exactly when
  \<open>Regexp.Match\<close> of the entry's pattern accepts that slug.  The pass adds no anchor:
  \<open>Match\<close> searches the pattern anywhere in the slug, so the pattern \<open>svc-\<close> selects
  \<open>svc-a\<close> and also \<open>my-svc-x\<close>, and not \<open>other\<close>.
\<close>

theorem ruleset_repositories_by_unanchored_match:
  assumes "lgrs_of ext local confs [] = Inr lgrs" and "(name, grs) \<in> set lgrs"
  shows "\<exists>confrs \<in> set confs. \<exists>rs.
           map_of (RuleSets local) (Ruleset confrs) = Some rs \<and> name = rs_Name rs \<and>
           set (grs_Repositories grs) \<subseteq> slug_Make ext ` fst ` set (Repositories local) \<and>
           (\<forall>reponame \<in> fst ` set (Repositories local).
              slug_Make ext reponame \<in> set (grs_Repositories grs) \<longleftrightarrow>
              regexp_Match ext (Pattern confrs) (slug_Make ext reponame))"
proof -
  from lgrs_of_entries [OF assms] obtain confrs rs where
    "confrs \<in> set confs" "map_of (RuleSets local) (Ruleset confrs) = Some rs"
    "name = rs_Name rs" "grs = local_ruleset ext local (Pattern confrs) rs"
    by auto
  then show ?thesis
    by (intro bexI [of _ confrs] exI [of _ rs]) (auto simp: local_ruleset_repositories)
qed

theorem ruleset_repositories_by_unanchored_match_witness:
  "lgrs_of plain_externals local_svc svc_config [] = Inr [(''required-checks'', svc_ruleset)] \<and>
   grs_Repositories svc_ruleset = [''svc-a'', ''my-svc-x''] \<and>
   regexp_Match plain_externals ''svc-'' (slug_Make plain_externals ''my-svc-x'') \<and>
   \<not> regexp_Match plain_externals ''svc-'' (slug_Make plain_externals ''other'')"
proof -
  have h1: "lgrs_of plain_externals local_svc svc_config [] = Inr [(''required-checks'', svc_ruleset)]"
    by (simp add: plain_externals_def local_svc_def svc_config_def svc_ruleset_def
        local_ruleset_def Let_def)
  have h2: "(''required-checks'', svc_ruleset) \<in> set [(''required-checks'', svc_ruleset)]"
    by simp
  show ?thesis
    using h1 ruleset_repositories_by_unanchored_match [OF h1 h2]
    by (simp add: plain_externals_def svc_ruleset_def)
qed

end
